theory Spec2Isabelle
  imports Complex_Main "HOL-Library.AList"
begin

section \<open>Python values used by NB.py\<close>

text \<open>
  The exceptions that the modelled code can raise. A raise is the value \<open>Inl e\<close>; a
  normal return is \<open>Inr v\<close>.
\<close>

datatype py_error = KeyError | ValueError | ZeroDivisionError | OverflowError

text \<open>
  A Python \<open>dict\<close> keeps its keys in insertion order, and assigning to a key that is
  already present keeps that key's position. It is an association list, written to with
  \<open>AList.update\<close> and read with \<open>map_of\<close>. The loader and the trainer only ever build
  lists with distinct keys; no theorem below needs that of its input.

  A Python \<open>set\<close> is a list without duplicates, in the order in which the set would be
  iterated. CPython fixes that order by hashing; the code never depends on it for the
  vocabulary, and every statement about a vocabulary below is about \<open>set V\<close>. For the
  class set the iteration order decides ties, so it is the order of the list
  \<open>classes\<close>, a parameter of the model.

  Python's \<open>int\<close> is \<open>int\<close>. Python's \<open>float\<close> is modelled by \<open>real\<close>. In the
  trainer and the driver ratios and logarithms are exact, and rounding, overflow and
  underflow of IEEE doubles are outside the model; in the classifier, where exact ties
  between scores matter, the arithmetic is a parameter (see there).
\<close>

type_synonym ('k, 'v) dict = "('k \<times> 'v) list"
type_synonym word_counts = "(string, int) dict"
type_synonym document = "word_counts \<times> string"
type_synonym model = "string list \<times> (string, real) dict \<times> (string \<times> string, real) dict"

definition dict_index :: "('k, 'v) dict \<Rightarrow> 'k \<Rightarrow> py_error + 'v" where
  \<comment> \<open>\<open>d[k]\<close>\<close>
  "dict_index d k = (case map_of d k of None \<Rightarrow> Inl KeyError | Some v \<Rightarrow> Inr v)"

definition dict_get :: "('k, 'v) dict \<Rightarrow> 'k \<Rightarrow> 'v \<Rightarrow> 'v" where
  \<comment> \<open>\<open>d.get(k, dflt)\<close>\<close>
  "dict_get d k dflt = (case map_of d k of None \<Rightarrow> dflt | Some v \<Rightarrow> v)"

definition dict_from_keys :: "('k \<Rightarrow> 'v) \<Rightarrow> 'k list \<Rightarrow> ('k, 'v) dict" where
  \<comment> \<open>\<open>{k: f(k) for k in ks}\<close>\<close>
  "dict_from_keys f ks = foldl (\<lambda>d k. AList.update k (f k) d) [] ks"

definition py_truediv :: "int \<Rightarrow> int \<Rightarrow> py_error + real" where
  \<comment> \<open>\<open>a / b\<close> on two ints\<close>
  "py_truediv a b = (if b = 0 then Inl ZeroDivisionError else Inr (real_of_int a / real_of_int b))"

definition py_log :: "real \<Rightarrow> py_error + real" where
  \<comment> \<open>\<open>math.log(x)\<close>: a math domain error unless \<open>x\<close> is positive\<close>
  "py_log x = (if x \<le> 0 then Inl ValueError else Inr (ln x))"

definition log_ratio :: "int \<Rightarrow> int \<Rightarrow> py_error + real" where
  \<comment> \<open>\<open>log(a / b)\<close>\<close>
  "log_ratio a b = (case py_truediv a b of Inl e \<Rightarrow> Inl e | Inr q \<Rightarrow> py_log q)"

section \<open>Python strings\<close>

text \<open>
  A string is a list of characters. The model covers ASCII text: for \<open>str.split\<close> the
  white space characters are the ten ASCII ones, and for \<open>int\<close> the digits are \<open>0\<close> to
  \<open>9\<close>. (Python also splits at the Unicode spaces and reads the Unicode decimal digits,
  and since 3.11 refuses literals of more than 4300 digits; corpora with such text are
  outside the model.)
\<close>

definition is_space :: "char \<Rightarrow> bool" where
  \<comment> \<open>\<open>ch.isspace()\<close> for an ASCII character: TAB, LF, VT, FF, CR, FS, GS, RS, US, space\<close>
  "is_space ch \<longleftrightarrow>
     ch \<in> set [CHR 0x09, CHR 0x0A, CHR 0x0B, CHR 0x0C, CHR 0x0D,
                CHR 0x1C, CHR 0x1D, CHR 0x1E, CHR 0x1F, CHR 0x20]"

definition py_strip :: "string \<Rightarrow> string" where
  \<comment> \<open>\<open>s.strip()\<close>\<close>
  "py_strip s = rev (dropWhile is_space (rev (dropWhile is_space s)))"

fun split_space :: "string \<Rightarrow> string \<Rightarrow> string list" where
  \<comment> \<open>the fields of \<open>s.split()\<close>, \<open>cur\<close> being the field read so far\<close>
  "split_space cur [] = (if cur = [] then [] else [cur])"
| "split_space cur (ch # s) =
     (if is_space ch then (if cur = [] then split_space [] s else cur # split_space [] s)
      else split_space (cur @ [ch]) s)"

definition py_split :: "string \<Rightarrow> string list" where
  \<comment> \<open>\<open>s.split()\<close>: the maximal runs of characters that are not white space\<close>
  "py_split s = split_space [] s"

fun split_on :: "char \<Rightarrow> string \<Rightarrow> string \<Rightarrow> string list" where
  \<comment> \<open>\<open>s.split(sep)\<close> for a one-character separator: every occurrence splits, empty
      fields are kept\<close>
  "split_on sep cur [] = [cur]"
| "split_on sep cur (ch # s) =
     (if ch = sep then cur # split_on sep [] s else split_on sep (cur @ [ch]) s)"

definition is_digit :: "char \<Rightarrow> bool" where
  "is_digit ch \<longleftrightarrow> ch \<in> set ''0123456789''"

definition digit_value :: "char \<Rightarrow> int" where
  "digit_value ch = int (of_char ch) - 48"

fun parse_digits :: "int \<Rightarrow> bool \<Rightarrow> string \<Rightarrow> int option" where
  \<comment> \<open>decimal digits, with single underscores allowed between two digits;
      \<open>after_digit\<close> says that the character before was a digit\<close>
  "parse_digits acc after_digit [] = (if after_digit then Some acc else None)"
| "parse_digits acc after_digit (ch # s) =
     (if is_digit ch then parse_digits (10 * acc + digit_value ch) True s
      else if ch = CHR ''_'' \<and> after_digit then parse_digits acc False s
      else None)"

definition py_int :: "string \<Rightarrow> py_error + int" where
  \<comment> \<open>\<open>int(s)\<close> for a string: surrounding white space, an optional sign, digits\<close>
  "py_int s =
     (case (case py_strip s of
              [] \<Rightarrow> None
            | ch # r \<Rightarrow>
                if ch = CHR ''-'' then map_option uminus (parse_digits 0 False r)
                else if ch = CHR ''+'' then parse_digits 0 False r
                else parse_digits 0 False (ch # r)) of
        None \<Rightarrow> Inl ValueError
      | Some n \<Rightarrow> Inr n)"

section \<open>load_preprocessed_data\<close>

fun parse_pairs ::
  "word_counts \<Rightarrow> string list \<Rightarrow> string list \<Rightarrow> py_error + (word_counts \<times> string list)" where
  \<comment> \<open>\<open>for word_count in parts[1:]:
        word, count = word_count.split(':')
        word_counts[word] = int(count)
        vocabulary.add(word)\<close>
      Unpacking into two names raises \<open>ValueError\<close> unless there are exactly two fields.\<close>
  "parse_pairs word_counts vocabulary [] = Inr (word_counts, vocabulary)"
| "parse_pairs word_counts vocabulary (word_count # rest) =
     (case split_on CHR '':'' [] word_count of
        [word, count] \<Rightarrow>
          (case py_int count of
             Inl e \<Rightarrow> Inl e
           | Inr n \<Rightarrow> parse_pairs (AList.update word n word_counts) (List.insert word vocabulary) rest)
      | _ \<Rightarrow> Inl ValueError)"

fun load_lines ::
  "document list \<Rightarrow> string list \<Rightarrow> string list \<Rightarrow> py_error + (document list \<times> string list)" where
  \<comment> \<open>\<open>for line in f: ...\<close>, on the lines of the file\<close>
  "load_lines documents vocabulary [] = Inr (documents, vocabulary)"
| "load_lines documents vocabulary (line # lines) =
     (case py_split (py_strip line) of
        [] \<Rightarrow> load_lines documents vocabulary lines
      | label # pairs \<Rightarrow>
          (case parse_pairs [] vocabulary pairs of
             Inl e \<Rightarrow> Inl e
           | Inr (word_counts, vocabulary') \<Rightarrow>
               load_lines (documents @ [(word_counts, label)]) vocabulary' lines))"

definition load_preprocessed_data :: "string list \<Rightarrow> py_error + (document list \<times> string list)" where
  \<comment> \<open>the argument is the list of the file's lines, as iterating the file yields them\<close>
  "load_preprocessed_data lines = load_lines [] [] lines"

section \<open>train_naive_bayes\<close>

fun count_classes :: "(string, nat) dict \<Rightarrow> document list \<Rightarrow> py_error + (string, nat) dict" where
  \<comment> \<open>\<open>for _, label in documents: class_counts[label] += 1\<close>\<close>
  "count_classes class_counts [] = Inr class_counts"
| "count_classes class_counts ((word_counts, label) # documents) =
     (case dict_index class_counts label of
        Inl e \<Rightarrow> Inl e
      | Inr n \<Rightarrow> count_classes (AList.update label (n + 1) class_counts) documents)"

fun collect_vocabulary :: "string list \<Rightarrow> document list \<Rightarrow> string list" where
  \<comment> \<open>\<open>for word_counts, _ in documents: V.update(word_counts.keys())\<close>\<close>
  "collect_vocabulary V [] = V"
| "collect_vocabulary V ((word_counts, label) # documents) =
     collect_vocabulary (List.union (map fst word_counts) V) documents"

fun class_priors ::
  "(string, nat) dict \<Rightarrow> nat \<Rightarrow> (string, real) dict \<Rightarrow> string list \<Rightarrow> py_error + (string, real) dict" where
  \<comment> \<open>\<open>for c in classes: logprior[c] = log(class_counts[c] / N_doc)\<close>\<close>
  "class_priors class_counts N_doc logprior [] = Inr logprior"
| "class_priors class_counts N_doc logprior (c # classes) =
     (case dict_index class_counts c of
        Inl e \<Rightarrow> Inl e
      | Inr n \<Rightarrow>
          (case log_ratio (int n) (int N_doc) of
             Inl e \<Rightarrow> Inl e
           | Inr p \<Rightarrow> class_priors class_counts N_doc (AList.update c p logprior) classes))"

fun add_document ::
  "(string, (string, int) dict) dict \<Rightarrow> string \<Rightarrow> word_counts \<Rightarrow> py_error + (string, (string, int) dict) dict" where
  \<comment> \<open>\<open>for word, count in word_counts.items():
        bigdoc[label][word] = bigdoc[label].get(word, 0) + count\<close>\<close>
  "add_document bigdoc label [] = Inr bigdoc"
| "add_document bigdoc label ((word, count) # items) =
     (case dict_index bigdoc label of
        Inl e \<Rightarrow> Inl e
      | Inr bucket \<Rightarrow>
          add_document
            (AList.update label (AList.update word (dict_get bucket word 0 + count) bucket) bigdoc)
            label items)"

fun build_bigdoc ::
  "(string, (string, int) dict) dict \<Rightarrow> document list \<Rightarrow> py_error + (string, (string, int) dict) dict" where
  \<comment> \<open>\<open>for word_counts, label in documents: ...\<close>\<close>
  "build_bigdoc bigdoc [] = Inr bigdoc"
| "build_bigdoc bigdoc ((word_counts, label) # documents) =
     (case add_document bigdoc label word_counts of
        Inl e \<Rightarrow> Inl e
      | Inr bigdoc' \<Rightarrow> build_bigdoc bigdoc' documents)"

fun word_likelihoods ::
  "(string, int) dict \<Rightarrow> int \<Rightarrow> string \<Rightarrow> (string \<times> string, real) dict \<Rightarrow> string list
     \<Rightarrow> py_error + (string \<times> string, real) dict" where
  \<comment> \<open>\<open>for word in V:
        count = bigdoc[c].get(word, 0) + 1
        loglikelihood[(word, c)] = log(count / total_words)\<close>\<close>
  "word_likelihoods bucket total_words c loglikelihood [] = Inr loglikelihood"
| "word_likelihoods bucket total_words c loglikelihood (word # V) =
     (case log_ratio (dict_get bucket word 0 + 1) total_words of
        Inl e \<Rightarrow> Inl e
      | Inr p \<Rightarrow> word_likelihoods bucket total_words c (AList.update (word, c) p loglikelihood) V)"

definition total_words :: "(string, int) dict \<Rightarrow> string list \<Rightarrow> int" where
  \<comment> \<open>\<open>sum(bigdoc[c].values()) + len(V)\<close>, for the bucket \<open>bigdoc[c]\<close>\<close>
  "total_words bucket V = sum_list (map snd bucket) + int (length V)"

fun class_likelihoods ::
  "(string, (string, int) dict) dict \<Rightarrow> string list \<Rightarrow> (string \<times> string, real) dict \<Rightarrow> string list
     \<Rightarrow> py_error + (string \<times> string, real) dict" where
  \<comment> \<open>\<open>for c in classes:
        total_words = sum(bigdoc[c].values()) + len(V)
        for word in V: ...\<close>\<close>
  "class_likelihoods bigdoc V loglikelihood [] = Inr loglikelihood"
| "class_likelihoods bigdoc V loglikelihood (c # classes) =
     (case dict_index bigdoc c of
        Inl e \<Rightarrow> Inl e
      | Inr bucket \<Rightarrow>
          (case word_likelihoods bucket (total_words bucket V) c loglikelihood V of
             Inl e \<Rightarrow> Inl e
           | Inr loglikelihood' \<Rightarrow> class_likelihoods bigdoc V loglikelihood' classes))"

definition train_naive_bayes :: "document list \<Rightarrow> string list \<Rightarrow> py_error + model" where
  "train_naive_bayes documents classes =
     (case count_classes (dict_from_keys (\<lambda>c. 0) classes) documents of
        Inl e \<Rightarrow> Inl e
      | Inr class_counts \<Rightarrow>
          (let V = collect_vocabulary [] documents in
           case class_priors class_counts (length documents) [] classes of
             Inl e \<Rightarrow> Inl e
           | Inr logprior \<Rightarrow>
               (case build_bigdoc (dict_from_keys (\<lambda>c. []) classes) documents of
                  Inl e \<Rightarrow> Inl e
                | Inr bigdoc \<Rightarrow>
                    (case class_likelihoods bigdoc V [] classes of
                       Inl e \<Rightarrow> Inl e
                     | Inr loglikelihood \<Rightarrow> Inr (V, logprior, loglikelihood)))))"

section \<open>test_naive_bayes\<close>

text \<open>
  The scores are doubles, and \<open>scores[c] += count * loglikelihood.get((word, c), 0)\<close>
  rounds twice. A finite double is a real number and doubles compare as reals do, but the
  sum and the product that the machine computes are not the exact ones. So the
  arithmetic of the classifier is a parameter of the model: \<open>fadd s t\<close> is what the
  addition of two doubles returns and \<open>fmul count x\<close> what the product of an \<open>int\<close>
  and a double returns, which raises \<open>OverflowError\<close> when the \<open>int\<close> does not fit a
  double. The theorems about the classifier hold for every choice of the two. Results
  that leave the finite doubles (an infinity, NaN) are outside the model.
\<close>

fun init_scores ::
  "(string, real) dict \<Rightarrow> (string, real) dict \<Rightarrow> string list \<Rightarrow> py_error + (string, real) dict" where
  \<comment> \<open>\<open>scores = {c: logprior[c] for c in classes}\<close>\<close>
  "init_scores logprior scores [] = Inr scores"
| "init_scores logprior scores (c # classes) =
     (case dict_index logprior c of
        Inl e \<Rightarrow> Inl e
      | Inr p \<Rightarrow> init_scores logprior (AList.update c p scores) classes)"

definition count_times_likelihood ::
  "(int \<Rightarrow> real \<Rightarrow> py_error + real) \<Rightarrow> (string \<times> string, real) dict \<Rightarrow> string \<Rightarrow> string \<Rightarrow> int
     \<Rightarrow> py_error + real" where
  \<comment> \<open>\<open>count * loglikelihood.get((word, c), 0)\<close>: for a missing entry the product is the
      \<open>int\<close> 0, computed exactly\<close>
  "count_times_likelihood fmul loglikelihood word c count =
     (case map_of loglikelihood (word, c) of None \<Rightarrow> Inr 0 | Some x \<Rightarrow> fmul count x)"

fun add_word_scores ::
  "(real \<Rightarrow> real \<Rightarrow> real) \<Rightarrow> (int \<Rightarrow> real \<Rightarrow> py_error + real)
     \<Rightarrow> (string \<times> string, real) dict \<Rightarrow> string \<Rightarrow> int \<Rightarrow> (string, real) dict \<Rightarrow> string list
     \<Rightarrow> py_error + (string, real) dict" where
  \<comment> \<open>\<open>for c in classes: scores[c] += count * loglikelihood.get((word, c), 0)\<close>:
      \<open>scores[c]\<close> is read, the product computed, the sum stored\<close>
  "add_word_scores fadd fmul loglikelihood word count scores [] = Inr scores"
| "add_word_scores fadd fmul loglikelihood word count scores (c # classes) =
     (case dict_index scores c of
        Inl e \<Rightarrow> Inl e
      | Inr s \<Rightarrow>
          (case count_times_likelihood fmul loglikelihood word c count of
             Inl e \<Rightarrow> Inl e
           | Inr t \<Rightarrow>
               add_word_scores fadd fmul loglikelihood word count
                 (AList.update c (fadd s t) scores) classes))"

fun score_words ::
  "(real \<Rightarrow> real \<Rightarrow> real) \<Rightarrow> (int \<Rightarrow> real \<Rightarrow> py_error + real)
     \<Rightarrow> string list \<Rightarrow> (string \<times> string, real) dict \<Rightarrow> string list \<Rightarrow> (string, real) dict \<Rightarrow> word_counts
     \<Rightarrow> py_error + (string, real) dict" where
  \<comment> \<open>\<open>for word, count in word_counts.items(): if word in V: ...\<close>\<close>
  "score_words fadd fmul V loglikelihood classes scores [] = Inr scores"
| "score_words fadd fmul V loglikelihood classes scores ((word, count) # items) =
     (if word \<in> set V then
        (case add_word_scores fadd fmul loglikelihood word count scores classes of
           Inl e \<Rightarrow> Inl e
         | Inr scores' \<Rightarrow> score_words fadd fmul V loglikelihood classes scores' items)
      else score_words fadd fmul V loglikelihood classes scores items)"

definition final_scores ::
  "(real \<Rightarrow> real \<Rightarrow> real) \<Rightarrow> (int \<Rightarrow> real \<Rightarrow> py_error + real)
     \<Rightarrow> word_counts \<Rightarrow> string list \<Rightarrow> (string, real) dict \<Rightarrow> (string \<times> string, real) dict \<Rightarrow> string list
     \<Rightarrow> py_error + (string, real) dict" where
  \<comment> \<open>the dict \<open>scores\<close> when the loop over the document's words has ended: the scores
      that the code has computed\<close>
  "final_scores fadd fmul word_counts V logprior loglikelihood classes =
     (case init_scores logprior [] classes of
        Inl e \<Rightarrow> Inl e
      | Inr scores \<Rightarrow> score_words fadd fmul V loglikelihood classes scores word_counts)"

fun py_max_by_value :: "('k \<times> real) list \<Rightarrow> py_error + ('k \<times> real)" where
  \<comment> \<open>\<open>max(items, key=lambda x: x[1])\<close>: the first item whose value no later item
      exceeds; \<open>ValueError\<close> on an empty sequence\<close>
  "py_max_by_value [] = Inl ValueError"
| "py_max_by_value (x # xs) = Inr (fold (\<lambda>y best. if snd best < snd y then y else best) xs x)"

definition test_naive_bayes ::
  "(real \<Rightarrow> real \<Rightarrow> real) \<Rightarrow> (int \<Rightarrow> real \<Rightarrow> py_error + real)
     \<Rightarrow> word_counts \<Rightarrow> string list \<Rightarrow> (string, real) dict \<Rightarrow> (string \<times> string, real) dict \<Rightarrow> string list
     \<Rightarrow> py_error + string" where
  \<comment> \<open>the source's five arguments, after the two operations of the arithmetic\<close>
  "test_naive_bayes fadd fmul word_counts V logprior loglikelihood classes =
     (case final_scores fadd fmul word_counts V logprior loglikelihood classes of
        Inl e \<Rightarrow> Inl e
      | Inr scores \<Rightarrow>
          (case py_max_by_value scores of
             Inl e \<Rightarrow> Inl e
           | Inr best \<Rightarrow> Inr (fst best)))"

definition exact_add :: "real \<Rightarrow> real \<Rightarrow> real" where
  \<comment> \<open>the addition that does not round\<close>
  "exact_add s t = s + t"

definition exact_mul :: "int \<Rightarrow> real \<Rightarrow> py_error + real" where
  \<comment> \<open>the multiplication that does not round and never overflows\<close>
  "exact_mul count x = Inr (real_of_int count * x)"

section \<open>The evaluation driver\<close>

definition digit_char :: "nat \<Rightarrow> char" where
  \<comment> \<open>the character of a decimal digit \<open>d < 10\<close>\<close>
  "digit_char d = ''0123456789'' ! d"

function show_nat :: "nat \<Rightarrow> string" where
  \<comment> \<open>\<open>str(n)\<close> for a non-negative int\<close>
  "show_nat n = (if n < 10 then [digit_char n] else show_nat (n div 10) @ [digit_char (n mod 10)])"
  by pat_completeness auto
termination
  by (relation "measure id") auto

definition round_half_even :: "real \<Rightarrow> int" where
  "round_half_even x =
     (let f = \<lfloor>x\<rfloor>; r = x - of_int f
      in if r < 1 / 2 then f else if 1 / 2 < r then f + 1 else if even f then f else f + 1)"

definition format_2f :: "real \<Rightarrow> string" where
  \<comment> \<open>\<open>f"{x:.2f}"\<close> for \<open>x \<ge> 0\<close>: the value rounded to hundredths (ties to even), with
      at least one digit before the point and two after it\<close>
  "format_2f x =
     (let h = nat (round_half_even (x * 100))
      in show_nat (h div 100) @ ''.'' @ [digit_char (h mod 100 div 10), digit_char (h mod 10)])"

definition newline :: string where
  "newline = [CHR 0x0A]"

fun predict_all ::
  "(real \<Rightarrow> real \<Rightarrow> real) \<Rightarrow> (int \<Rightarrow> real \<Rightarrow> py_error + real)
     \<Rightarrow> string list \<Rightarrow> (string, real) dict \<Rightarrow> (string \<times> string, real) dict \<Rightarrow> string list
     \<Rightarrow> string \<times> nat \<times> nat \<Rightarrow> document list \<Rightarrow> py_error + (string \<times> nat \<times> nat)" where
  \<comment> \<open>\<open>for word_counts, true_label in test_docs:
        predicted_label = test_naive_bayes(word_counts, V, logprior, loglikelihood, classes)
        f.write(f"{predicted_label}\n")
        total += 1
        if predicted_label == true_label: correct += 1\<close>
      The state is what has been written to the file, \<open>correct\<close> and \<open>total\<close>
      (here \<open>total_n\<close>).\<close>
  "predict_all fadd fmul V logprior loglikelihood classes st [] = Inr st"
| "predict_all fadd fmul V logprior loglikelihood classes (out, correct, total_n) ((word_counts, true_label) # test_docs) =
     (case test_naive_bayes fadd fmul word_counts V logprior loglikelihood classes of
        Inl e \<Rightarrow> Inl e
      | Inr predicted_label \<Rightarrow>
          predict_all fadd fmul V logprior loglikelihood classes
            (out @ predicted_label @ newline,
             if predicted_label = true_label then correct + 1 else correct,
             total_n + 1)
            test_docs)"

definition nb_main ::
  "(real \<Rightarrow> real \<Rightarrow> real) \<Rightarrow> (int \<Rightarrow> real \<Rightarrow> py_error + real)
     \<Rightarrow> string list \<Rightarrow> string list \<Rightarrow> string list \<Rightarrow> py_error + string" where
  \<comment> \<open>The \<open>__main__\<close> block, from the lines of the training file and of the test file to
      the text written to the predictions file. \<open>fadd\<close> and \<open>fmul\<close> are the
      classifier's arithmetic; \<open>classes\<close> is the set \<open>{'pos', 'neg'}\<close> in its iteration
      order. \<open>save_model\<close> only writes the model file and is left out.\<close>
  "nb_main fadd fmul classes train_lines test_lines =
     (case load_preprocessed_data train_lines of
        Inl e \<Rightarrow> Inl e
      | Inr (train_docs, vocab) \<Rightarrow>
          (case train_naive_bayes train_docs classes of
             Inl e \<Rightarrow> Inl e
           | Inr (V, logprior, loglikelihood) \<Rightarrow>
               (case load_preprocessed_data test_lines of
                  Inl e \<Rightarrow> Inl e
                | Inr (test_docs, vocab') \<Rightarrow>
                    (case predict_all fadd fmul V logprior loglikelihood classes ([], 0, 0) test_docs of
                       Inl e \<Rightarrow> Inl e
                     | Inr (out, correct, total_n) \<Rightarrow>
                         (case py_truediv (int correct) (int total_n) of
                            Inl e \<Rightarrow> Inl e
                          | Inr q \<Rightarrow>
                              Inr (out @ newline @ ''Accuracy: '' @ format_2f (q * 100) @ ''%''))))))"

section \<open>Quantities that the specification names\<close>

text \<open>
  The specification states its properties of the trained model in terms of counts taken
  over the training documents and of sums of probabilities. These definitions follow the
  specification's words; the theorems below relate them to what the code computes.
\<close>

definition docs_in_class :: "document list \<Rightarrow> string \<Rightarrow> nat" where
  \<comment> \<open>\<open>count(c)\<close>: the number of training documents labelled \<open>c\<close>\<close>
  "docs_in_class documents c = length (filter (\<lambda>d. snd d = c) documents)"

definition count_in_doc :: "word_counts \<Rightarrow> string \<Rightarrow> int" where
  \<comment> \<open>the count of \<open>w\<close> in one document\<close>
  "count_in_doc word_counts w = sum_list (map snd (filter (\<lambda>p. fst p = w) word_counts))"

definition count_in_class :: "document list \<Rightarrow> string \<Rightarrow> string \<Rightarrow> int" where
  \<comment> \<open>the count of \<open>w\<close> in the documents of class \<open>c\<close>\<close>
  "count_in_class documents c w =
     sum_list (map (\<lambda>d. count_in_doc (fst d) w) (filter (\<lambda>d. snd d = c) documents))"

definition total_in_class :: "document list \<Rightarrow> string \<Rightarrow> int" where
  \<comment> \<open>the total word count of class \<open>c\<close>\<close>
  "total_in_class documents c =
     sum_list (map (\<lambda>d. sum_list (map snd (fst d))) (filter (\<lambda>d. snd d = c) documents))"

definition nonneg_counts :: "document list \<Rightarrow> bool" where
  \<comment> \<open>every word count of every document is a non-negative integer\<close>
  "nonneg_counts documents \<longleftrightarrow> (\<forall>d\<in>set documents. \<forall>p\<in>set (fst d). 0 \<le> snd p)"

fun likelihood_mass :: "(string \<times> string, real) dict \<Rightarrow> string \<Rightarrow> string list \<Rightarrow> py_error + real" where
  \<comment> \<open>\<open>sum(exp(loglikelihood[(w, c)]) for w in V)\<close>\<close>
  "likelihood_mass loglikelihood c [] = Inr 0"
| "likelihood_mass loglikelihood c (w # V) =
     (case dict_index loglikelihood (w, c) of
        Inl e \<Rightarrow> Inl e
      | Inr x \<Rightarrow>
          (case likelihood_mass loglikelihood c V of
             Inl e \<Rightarrow> Inl e
           | Inr s \<Rightarrow> Inr (exp x + s)))"

fun prior_mass :: "(string, real) dict \<Rightarrow> string list \<Rightarrow> py_error + real" where
  \<comment> \<open>\<open>sum(exp(logprior[c]) for c in classes)\<close>\<close>
  "prior_mass logprior [] = Inr 0"
| "prior_mass logprior (c # classes) =
     (case dict_index logprior c of
        Inl e \<Rightarrow> Inl e
      | Inr x \<Rightarrow>
          (case prior_mass logprior classes of
             Inl e \<Rightarrow> Inl e
           | Inr s \<Rightarrow> Inr (exp x + s)))"

definition scenario_docs :: "document list" where
  \<comment> \<open>the training set of the specification's concrete scenario, as the loader returns it\<close>
  "scenario_docs =
     [([(''great'', 2), (''movie'', 1)], ''pos''), ([(''bad'', 2), (''movie'', 1)], ''neg'')]"

definition first_colon_pair :: "string \<Rightarrow> (string \<times> int) option" where
  \<comment> \<open>a \<open>token:count\<close> segment as the specification reads it: split at the first colon,
      the count parsed by \<open>int\<close>; \<open>None\<close> when there is no colon or the count is
      malformed\<close>
  "first_colon_pair seg =
     (if CHR '':'' \<notin> set seg then None
      else case py_int (tl (dropWhile (\<lambda>ch. ch \<noteq> CHR '':'') seg)) of
             Inl e \<Rightarrow> None
           | Inr n \<Rightarrow> Some (takeWhile (\<lambda>ch. ch \<noteq> CHR '':'') seg, n))"

definition line_document :: "string \<Rightarrow> document option" where
  \<comment> \<open>the document of one corpus line \<open>label token1:count1 token2:count2 ...\<close>; a blank
      line has none\<close>
  "line_document line =
     (case py_split (py_strip line) of
        [] \<Rightarrow> None
      | label # pairs \<Rightarrow>
          Some (fold (\<lambda>seg word_counts.
                        case first_colon_pair seg of
                          None \<Rightarrow> word_counts
                        | Some (word, n) \<Rightarrow> AList.update word n word_counts)
                  pairs [],
                label))"

definition well_formed_line :: "string \<Rightarrow> bool" where
  \<comment> \<open>every segment after the label has a colon and a count that \<open>int\<close> accepts\<close>
  "well_formed_line line \<longleftrightarrow>
     list_all (\<lambda>seg. first_colon_pair seg \<noteq> None) (tl (py_split (py_strip line)))"

definition predictions_then_summary :: "string list \<Rightarrow> string \<Rightarrow> string" where
  \<comment> \<open>the predictions file as the specification describes it: one predicted label per
      line, directly followed by the summary line\<close>
  "predictions_then_summary predictions summary =
     concat (map (\<lambda>p. p @ newline) predictions) @ summary"

definition count_correct :: "string list \<Rightarrow> document list \<Rightarrow> nat" where
  \<comment> \<open>the number of test documents whose predicted label is their true label\<close>
  "count_correct predictions test_docs =
     length (filter (\<lambda>pd. fst pd = snd (snd pd)) (zip predictions test_docs))"

section \<open>Evaluating the model on concrete inputs\<close>

lemmas nb_eval =
  load_preprocessed_data_def py_split_def py_strip_def is_space_def py_int_def is_digit_def
  digit_value_def train_naive_bayes_def dict_from_keys_def dict_index_def dict_get_def
  log_ratio_def py_truediv_def py_log_def total_words_def List.union_def List.insert_def
  test_naive_bayes_def final_scores_def count_times_likelihood_def
  exact_add_def exact_mul_def

section \<open>The concrete scenario\<close>

text \<open>
  Claim C1. The two lines \<open>pos great:2 movie:1\<close> and \<open>neg bad:2 movie:1\<close> load as
  \<open>scenario_docs\<close>. Training on them with the classes pos and neg, in either iteration
  order of the class set, returns a model whose vocabulary is great, movie, bad, whose
  log-priors are both \<open>ln 0.5\<close>, whose denominator for pos is 6 and whose
  log-likelihoods for pos are \<open>ln (3/6)\<close>, \<open>ln (2/6)\<close> and \<open>ln (1/6)\<close>. Classifying
  the document \<open>{great: 1}\<close> returns pos, and the final score of pos is strictly above
  that of neg (the scores being summed without rounding).
\<close>

theorem scenario_train_and_classify:
  "(\<exists>vocabulary. load_preprocessed_data [''pos great:2 movie:1'', ''neg bad:2 movie:1'']
       = Inr (scenario_docs, vocabulary))
   \<and> (\<exists>V logprior loglikelihood bigdoc bucket scores s_pos s_neg.
         train_naive_bayes scenario_docs [''pos'', ''neg''] = Inr (V, logprior, loglikelihood)
       \<and> set V = {''great'', ''movie'', ''bad''}
       \<and> map_of logprior ''pos'' = Some (ln 0.5)
       \<and> map_of logprior ''neg'' = Some (ln 0.5)
       \<and> build_bigdoc (dict_from_keys (\<lambda>c. []) [''pos'', ''neg'']) scenario_docs = Inr bigdoc
       \<and> dict_index bigdoc ''pos'' = Inr bucket
       \<and> total_words bucket V = 6
       \<and> map_of loglikelihood (''great'', ''pos'') = Some (ln (3 / 6))
       \<and> map_of loglikelihood (''movie'', ''pos'') = Some (ln (2 / 6))
       \<and> map_of loglikelihood (''bad'', ''pos'') = Some (ln (1 / 6))
       \<and> test_naive_bayes exact_add exact_mul [(''great'', 1)] V logprior loglikelihood [''pos'', ''neg''] = Inr ''pos''
       \<and> final_scores exact_add exact_mul [(''great'', 1)] V logprior loglikelihood [''pos'', ''neg''] = Inr scores
       \<and> map_of scores ''pos'' = Some s_pos \<and> map_of scores ''neg'' = Some s_neg
       \<and> s_neg < s_pos)
   \<and> (\<exists>V logprior loglikelihood bigdoc bucket scores s_pos s_neg.
         train_naive_bayes scenario_docs [''neg'', ''pos''] = Inr (V, logprior, loglikelihood)
       \<and> set V = {''great'', ''movie'', ''bad''}
       \<and> map_of logprior ''pos'' = Some (ln 0.5)
       \<and> map_of logprior ''neg'' = Some (ln 0.5)
       \<and> build_bigdoc (dict_from_keys (\<lambda>c. []) [''neg'', ''pos'']) scenario_docs = Inr bigdoc
       \<and> dict_index bigdoc ''pos'' = Inr bucket
       \<and> total_words bucket V = 6
       \<and> map_of loglikelihood (''great'', ''pos'') = Some (ln (3 / 6))
       \<and> map_of loglikelihood (''movie'', ''pos'') = Some (ln (2 / 6))
       \<and> map_of loglikelihood (''bad'', ''pos'') = Some (ln (1 / 6))
       \<and> test_naive_bayes exact_add exact_mul [(''great'', 1)] V logprior loglikelihood [''neg'', ''pos''] = Inr ''pos''
       \<and> final_scores exact_add exact_mul [(''great'', 1)] V logprior loglikelihood [''neg'', ''pos''] = Inr scores
       \<and> map_of scores ''pos'' = Some s_pos \<and> map_of scores ''neg'' = Some s_neg
       \<and> s_neg < s_pos)"
proof (intro conjI)
  show "\<exists>vocabulary. load_preprocessed_data [''pos great:2 movie:1'', ''neg bad:2 movie:1'']
          = Inr (scenario_docs, vocabulary)"
    by (simp add: nb_eval scenario_docs_def)
next
  have "{''bad'', ''movie'', ''great''} = {''great'', ''movie'', ''bad''}"
    by blast
  then show "\<exists>V logprior loglikelihood bigdoc bucket scores s_pos s_neg.
         train_naive_bayes scenario_docs [''pos'', ''neg''] = Inr (V, logprior, loglikelihood)
       \<and> set V = {''great'', ''movie'', ''bad''}
       \<and> map_of logprior ''pos'' = Some (ln 0.5)
       \<and> map_of logprior ''neg'' = Some (ln 0.5)
       \<and> build_bigdoc (dict_from_keys (\<lambda>c. []) [''pos'', ''neg'']) scenario_docs = Inr bigdoc
       \<and> dict_index bigdoc ''pos'' = Inr bucket
       \<and> total_words bucket V = 6
       \<and> map_of loglikelihood (''great'', ''pos'') = Some (ln (3 / 6))
       \<and> map_of loglikelihood (''movie'', ''pos'') = Some (ln (2 / 6))
       \<and> map_of loglikelihood (''bad'', ''pos'') = Some (ln (1 / 6))
       \<and> test_naive_bayes exact_add exact_mul [(''great'', 1)] V logprior loglikelihood [''pos'', ''neg''] = Inr ''pos''
       \<and> final_scores exact_add exact_mul [(''great'', 1)] V logprior loglikelihood [''pos'', ''neg''] = Inr scores
       \<and> map_of scores ''pos'' = Some s_pos \<and> map_of scores ''neg'' = Some s_neg
       \<and> s_neg < s_pos"
    by (simp add: nb_eval scenario_docs_def)
next
  have "{''bad'', ''movie'', ''great''} = {''great'', ''movie'', ''bad''}"
    by blast
  then show "\<exists>V logprior loglikelihood bigdoc bucket scores s_pos s_neg.
         train_naive_bayes scenario_docs [''neg'', ''pos''] = Inr (V, logprior, loglikelihood)
       \<and> set V = {''great'', ''movie'', ''bad''}
       \<and> map_of logprior ''pos'' = Some (ln 0.5)
       \<and> map_of logprior ''neg'' = Some (ln 0.5)
       \<and> build_bigdoc (dict_from_keys (\<lambda>c. []) [''neg'', ''pos'']) scenario_docs = Inr bigdoc
       \<and> dict_index bigdoc ''pos'' = Inr bucket
       \<and> total_words bucket V = 6
       \<and> map_of loglikelihood (''great'', ''pos'') = Some (ln (3 / 6))
       \<and> map_of loglikelihood (''movie'', ''pos'') = Some (ln (2 / 6))
       \<and> map_of loglikelihood (''bad'', ''pos'') = Some (ln (1 / 6))
       \<and> test_naive_bayes exact_add exact_mul [(''great'', 1)] V logprior loglikelihood [''neg'', ''pos''] = Inr ''pos''
       \<and> final_scores exact_add exact_mul [(''great'', 1)] V logprior loglikelihood [''neg'', ''pos''] = Inr scores
       \<and> map_of scores ''pos'' = Some s_pos \<and> map_of scores ''neg'' = Some s_neg
       \<and> s_neg < s_pos"
    by (simp add: nb_eval scenario_docs_def)
qed

section \<open>What the training loops compute\<close>

text \<open>
  The lemmas of this section follow the loops of \<open>train_naive_bayes\<close> one by one: what
  each returns, and when it returns at all.
\<close>

lemma keys_foldl_update:
  "fst ` set (foldl (\<lambda>d k. AList.update k (f k) d) d0 ks) = fst ` set d0 \<union> set ks"
  by (induction ks arbitrary: d0) (auto simp: AList.dom_update)

lemma keys_dict_from_keys: "fst ` set (dict_from_keys f ks) = set ks"
  by (simp add: dict_from_keys_def keys_foldl_update)

lemma map_of_foldl_update:
  "map_of (foldl (\<lambda>d k. AList.update k (f k) d) d0 ks) k =
     (if k \<in> set ks then Some (f k) else map_of d0 k)"
  by (induction ks arbitrary: d0) (auto simp: AList.update_conv')

lemma map_of_dict_from_keys:
  "map_of (dict_from_keys f ks) k = (if k \<in> set ks then Some (f k) else None)"
  by (simp add: dict_from_keys_def map_of_foldl_update)

lemma count_classes_unknown_label:
  "\<exists>d\<in>set documents. snd d \<notin> fst ` set class_counts
     \<Longrightarrow> count_classes class_counts documents = Inl KeyError"
proof (induction documents arbitrary: class_counts)
  case Nil
  then show ?case by simp
next
  case (Cons d documents)
  obtain word_counts label where d: "d = (word_counts, label)" by (cases d)
  show ?case
  proof (cases "map_of class_counts label")
    case None
    then show ?thesis by (simp add: d dict_index_def)
  next
    case (Some n)
    then have "label \<in> fst ` set class_counts"
      by (metis map_of_eq_None_iff option.distinct(1))
    then have keys: "fst ` set (AList.update label (n + 1) class_counts) = fst ` set class_counts"
      by (auto simp: AList.dom_update)
    from Cons.prems \<open>label \<in> fst ` set class_counts\<close>
    have "\<exists>d\<in>set documents. snd d \<notin> fst ` set class_counts"
      by (auto simp: d)
    then have "count_classes (AList.update label (n + 1) class_counts) documents = Inl KeyError"
      using Cons.IH keys by simp
    then show ?thesis by (simp add: d dict_index_def Some)
  qed
qed

lemma count_classes_result:
  "\<forall>d\<in>set documents. snd d \<in> fst ` set class_counts
     \<Longrightarrow> \<exists>cc'. count_classes class_counts documents = Inr cc'
          \<and> (\<forall>c. map_of cc' c = map_option (\<lambda>n. n + docs_in_class documents c) (map_of class_counts c))"
proof (induction documents arbitrary: class_counts)
  case Nil
  then show ?case by (simp add: docs_in_class_def option.map_ident)
next
  case (Cons d documents)
  obtain word_counts label where d: "d = (word_counts, label)" by (cases d)
  from Cons.prems have "label \<in> fst ` set class_counts" by (simp add: d)
  then obtain n where n: "map_of class_counts label = Some n"
    by (metis map_of_eq_None_iff not_Some_eq)
  let ?cc = "AList.update label (n + 1) class_counts"
  have "\<forall>d\<in>set documents. snd d \<in> fst ` set ?cc"
    using Cons.prems by (auto simp: AList.dom_update)
  from Cons.IH [OF this] obtain cc' where
    run: "count_classes ?cc documents = Inr cc'" and
    res: "\<And>c. map_of cc' c = map_option (\<lambda>n. n + docs_in_class documents c) (map_of ?cc c)"
    by blast
  have "map_of cc' c = map_option (\<lambda>n. n + docs_in_class (d # documents) c) (map_of class_counts c)" for c
    using n by (cases "map_of class_counts c") (auto simp: res AList.update_conv' d docs_in_class_def)
  then show ?case
    using run by (simp add: d dict_index_def n)
qed

lemma log_ratio_Inr:
  "log_ratio a b = Inr p \<longleftrightarrow> b \<noteq> 0 \<and> 0 < real_of_int a / real_of_int b \<and> p = ln (real_of_int a / real_of_int b)"
  by (auto simp: log_ratio_def py_truediv_def py_log_def)

lemma class_priors_result:
  "class_priors class_counts N logprior classes = Inr lp'
     \<Longrightarrow> map_of lp' c =
          (if c \<in> set classes then map_option (\<lambda>n. ln (real n / real N)) (map_of class_counts c)
           else map_of logprior c)"
proof (induction classes arbitrary: logprior)
  case Nil
  then show ?case by simp
next
  case (Cons a classes)
  from Cons.prems obtain n p where
    n: "map_of class_counts a = Some n" and
    p: "log_ratio (int n) (int N) = Inr p" and
    rest: "class_priors class_counts N (AList.update a p logprior) classes = Inr lp'"
    by (auto simp: dict_index_def split: option.splits sum.splits)
  from p have "p = ln (real n / real N)"
    by (auto simp: log_ratio_def py_truediv_def py_log_def split: if_splits)
  with Cons.IH [OF rest] n show ?case
    by (auto simp: AList.update_conv')
qed

lemma class_priors_succeeds:
  "0 < N \<Longrightarrow> \<forall>c\<in>set classes. \<exists>n. map_of class_counts c = Some n \<and> 0 < n
     \<Longrightarrow> \<exists>lp'. class_priors class_counts N logprior classes = Inr lp'"
proof (induction classes arbitrary: logprior)
  case Nil
  then show ?case by simp
next
  case (Cons a classes)
  then obtain n where n: "map_of class_counts a = Some n" "0 < n" by auto
  from \<open>0 < N\<close> n have "0 < real n / real N"
    by simp
  with \<open>0 < N\<close> have "log_ratio (int n) (int N) = Inr (ln (real n / real N))"
    by (simp add: log_ratio_def py_truediv_def py_log_def not_le)
  with Cons n show ?case
    by (simp add: dict_index_def)
qed

lemma dict_get_update:
  "dict_get (AList.update k v al) k' dflt = (if k' = k then v else dict_get al k' dflt)"
  by (simp add: dict_get_def AList.update_conv')

lemma sum_values_update:
  "sum_list (map snd (AList.update k (dict_get al k 0 + n) al)) = sum_list (map snd al) + (n::int)"
  by (induction al) (auto simp: dict_get_def)

lemma count_in_doc_Cons:
  "count_in_doc ((word, n) # items) w = (if word = w then n else 0) + count_in_doc items w"
  by (simp add: count_in_doc_def)

lemma add_document_result:
  "map_of bigdoc label = Some bucket
     \<Longrightarrow> \<exists>bigdoc' bucket'. add_document bigdoc label items = Inr bigdoc'
          \<and> map_of bigdoc' label = Some bucket'
          \<and> (\<forall>c. c \<noteq> label \<longrightarrow> map_of bigdoc' c = map_of bigdoc c)
          \<and> (\<forall>w. dict_get bucket' w 0 = dict_get bucket w 0 + count_in_doc items w)
          \<and> sum_list (map snd bucket') = sum_list (map snd bucket) + sum_list (map snd items)"
proof (induction items arbitrary: bigdoc bucket)
  case Nil
  then show ?case by (simp add: count_in_doc_def)
next
  case (Cons item items)
  obtain word n where item: "item = (word, n)" by (cases item)
  let ?bucket = "AList.update word (dict_get bucket word 0 + n) bucket"
  let ?bigdoc = "AList.update label ?bucket bigdoc"
  have "map_of ?bigdoc label = Some ?bucket"
    by (simp add: AList.update_conv')
  from Cons.IH [OF this] obtain bigdoc' bucket' where
    run: "add_document ?bigdoc label items = Inr bigdoc'" and
    b: "map_of bigdoc' label = Some bucket'" and
    other: "\<And>c. c \<noteq> label \<Longrightarrow> map_of bigdoc' c = map_of ?bigdoc c" and
    get: "\<And>w. dict_get bucket' w 0 = dict_get ?bucket w 0 + count_in_doc items w" and
    sum: "sum_list (map snd bucket') = sum_list (map snd ?bucket) + sum_list (map snd items)"
    by blast
  have "add_document bigdoc label (item # items) = Inr bigdoc'"
    using run Cons.prems by (simp add: item dict_index_def)
  moreover have "\<forall>c. c \<noteq> label \<longrightarrow> map_of bigdoc' c = map_of bigdoc c"
    by (simp add: other AList.update_conv')
  moreover have "\<forall>w. dict_get bucket' w 0 = dict_get bucket w 0 + count_in_doc (item # items) w"
    by (auto simp: get dict_get_update item count_in_doc_Cons)
  moreover have "sum_list (map snd bucket') = sum_list (map snd bucket) + sum_list (map snd (item # items))"
    by (simp add: sum sum_values_update item)
  ultimately show ?case using b by blast
qed

lemma build_bigdoc_result:
  "\<forall>d\<in>set documents. map_of bigdoc (snd d) \<noteq> None
     \<Longrightarrow> \<exists>bigdoc'. build_bigdoc bigdoc documents = Inr bigdoc'
          \<and> (\<forall>c bucket. map_of bigdoc c = Some bucket \<longrightarrow>
                (\<exists>bucket'. map_of bigdoc' c = Some bucket'
                   \<and> (\<forall>w. dict_get bucket' w 0 = dict_get bucket w 0 + count_in_class documents c w)
                   \<and> sum_list (map snd bucket') = sum_list (map snd bucket) + total_in_class documents c))"
proof (induction documents arbitrary: bigdoc)
  case Nil
  then show ?case by (simp add: count_in_class_def total_in_class_def)
next
  case (Cons d documents)
  obtain word_counts label where d: "d = (word_counts, label)" by (cases d)
  from Cons.prems obtain b0 where b0: "map_of bigdoc label = Some b0"
    by (auto simp: d)
  from add_document_result [OF b0, of word_counts] obtain bigdoc1 b1 where
    run1: "add_document bigdoc label word_counts = Inr bigdoc1" and
    b1: "map_of bigdoc1 label = Some b1" and
    other1: "\<And>c. c \<noteq> label \<Longrightarrow> map_of bigdoc1 c = map_of bigdoc c" and
    get1: "\<And>w. dict_get b1 w 0 = dict_get b0 w 0 + count_in_doc word_counts w" and
    sum1: "sum_list (map snd b1) = sum_list (map snd b0) + sum_list (map snd word_counts)"
    by blast
  have "\<forall>d\<in>set documents. map_of bigdoc1 (snd d) \<noteq> None"
  proof
    fix e assume "e \<in> set documents"
    with Cons.prems have "map_of bigdoc (snd e) \<noteq> None" by simp
    then show "map_of bigdoc1 (snd e) \<noteq> None"
      using b1 other1 by (cases "snd e = label") auto
  qed
  from Cons.IH [OF this] obtain bigdoc' where
    run: "build_bigdoc bigdoc1 documents = Inr bigdoc'" and
    res: "\<And>c bucket. map_of bigdoc1 c = Some bucket \<Longrightarrow>
            \<exists>bucket'. map_of bigdoc' c = Some bucket'
              \<and> (\<forall>w. dict_get bucket' w 0 = dict_get bucket w 0 + count_in_class documents c w)
              \<and> sum_list (map snd bucket') = sum_list (map snd bucket) + total_in_class documents c"
    by blast
  have "\<exists>bucket'. map_of bigdoc' c = Some bucket'
          \<and> (\<forall>w. dict_get bucket' w 0 = dict_get bucket w 0 + count_in_class (d # documents) c w)
          \<and> sum_list (map snd bucket') = sum_list (map snd bucket) + total_in_class (d # documents) c"
    if c: "map_of bigdoc c = Some bucket" for c bucket
  proof (cases "c = label")
    case True
    with c b0 have "bucket = b0" by simp
    from res [OF b1] obtain bucket' where
      "map_of bigdoc' label = Some bucket'"
      "\<And>w. dict_get bucket' w 0 = dict_get b1 w 0 + count_in_class documents label w"
      "sum_list (map snd bucket') = sum_list (map snd b1) + total_in_class documents label"
      by blast
    then show ?thesis
      using True \<open>bucket = b0\<close>
      by (auto simp: get1 sum1 d count_in_class_def total_in_class_def)
  next
    case False
    with c other1 have "map_of bigdoc1 c = Some bucket" by simp
    from res [OF this] False show ?thesis
      by (auto simp: d count_in_class_def total_in_class_def)
  qed
  then show ?case
    using run run1 by (auto simp: d)
qed

lemma build_bigdoc_initial:
  assumes labels: "\<forall>d\<in>set documents. snd d \<in> set classes" and c: "c \<in> set classes"
  shows "\<exists>bigdoc bucket. build_bigdoc (dict_from_keys (\<lambda>c. []) classes) documents = Inr bigdoc
           \<and> map_of bigdoc c = Some bucket
           \<and> (\<forall>w. dict_get bucket w 0 = count_in_class documents c w)
           \<and> sum_list (map snd bucket) = total_in_class documents c"
proof -
  let ?init = "dict_from_keys (\<lambda>c. []::(string, int) dict) classes"
  have "\<forall>d\<in>set documents. map_of ?init (snd d) \<noteq> None"
    using labels by (simp add: map_of_dict_from_keys)
  from build_bigdoc_result [OF this] obtain bigdoc where
    run: "build_bigdoc ?init documents = Inr bigdoc" and
    res: "\<And>c bucket. map_of ?init c = Some bucket \<Longrightarrow>
            \<exists>bucket'. map_of bigdoc c = Some bucket'
              \<and> (\<forall>w. dict_get bucket' w 0 = dict_get bucket w 0 + count_in_class documents c w)
              \<and> sum_list (map snd bucket') = sum_list (map snd bucket) + total_in_class documents c"
    by blast
  have "map_of ?init c = Some []"
    using c by (simp add: map_of_dict_from_keys)
  from res [OF this] obtain bucket where
    "map_of bigdoc c = Some bucket"
    "\<forall>w. dict_get bucket w 0 = dict_get [] w 0 + count_in_class documents c w"
    "sum_list (map snd bucket) = sum_list (map snd ([]::(string, int) dict)) + total_in_class documents c"
    by blast
  then have "map_of bigdoc c = Some bucket
           \<and> (\<forall>w. dict_get bucket w 0 = count_in_class documents c w)
           \<and> sum_list (map snd bucket) = total_in_class documents c"
    by (simp add: dict_get_def)
  with run show ?thesis by blast
qed

lemma set_collect_vocabulary:
  "set (collect_vocabulary V documents) = set V \<union> (\<Union>d\<in>set documents. fst ` set (fst d))"
  by (induction V documents rule: collect_vocabulary.induct) auto

lemma distinct_collect_vocabulary:
  "distinct V \<Longrightarrow> distinct (collect_vocabulary V documents)"
  by (induction V documents rule: collect_vocabulary.induct) auto

lemma vocabulary_covers_documents:
  "\<forall>d\<in>set documents. fst ` set (fst d) \<subseteq> set (collect_vocabulary [] documents)"
  by (auto simp: set_collect_vocabulary)

lemma word_likelihoods_result:
  "word_likelihoods bucket tw c loglikelihood V = Inr ll'
     \<Longrightarrow> (\<forall>w\<in>set V. 0 < real_of_int (dict_get bucket w 0 + 1) / real_of_int tw)
       \<and> (\<forall>w c'. map_of ll' (w, c') =
            (if w \<in> set V \<and> c' = c
             then Some (ln (real_of_int (dict_get bucket w 0 + 1) / real_of_int tw))
             else map_of loglikelihood (w, c')))"
proof (induction V arbitrary: loglikelihood)
  case Nil
  then show ?case by simp
next
  case (Cons word V)
  from Cons.prems obtain p where
    p: "log_ratio (dict_get bucket word 0 + 1) tw = Inr p" and
    rest: "word_likelihoods bucket tw c (AList.update (word, c) p loglikelihood) V = Inr ll'"
    by (auto split: sum.splits)
  from Cons.IH [OF rest] p show ?case
    by (auto simp: log_ratio_Inr AList.update_conv')
qed

lemma word_likelihoods_succeeds:
  "\<forall>w\<in>set V. 0 < real_of_int (dict_get bucket w 0 + 1) / real_of_int tw
     \<Longrightarrow> \<exists>ll'. word_likelihoods bucket tw c loglikelihood V = Inr ll'"
proof (induction V arbitrary: loglikelihood)
  case Nil
  then show ?case by simp
next
  case (Cons word V)
  then have "0 < real_of_int (dict_get bucket word 0 + 1) / real_of_int tw" by simp
  then have "log_ratio (dict_get bucket word 0 + 1) tw
               = Inr (ln (real_of_int (dict_get bucket word 0 + 1) / real_of_int tw))"
    by (auto simp: log_ratio_Inr)
  with Cons show ?case by simp
qed

lemma class_likelihoods_result:
  "class_likelihoods bigdoc V loglikelihood classes = Inr ll'
     \<Longrightarrow> (\<forall>c\<in>set classes. \<exists>bucket. map_of bigdoc c = Some bucket
            \<and> (\<forall>w\<in>set V. 0 < real_of_int (dict_get bucket w 0 + 1) / real_of_int (total_words bucket V)))
       \<and> (\<forall>w c. map_of ll' (w, c) =
            (if w \<in> set V \<and> c \<in> set classes
             then Some (ln (real_of_int (dict_get (the (map_of bigdoc c)) w 0 + 1)
                            / real_of_int (total_words (the (map_of bigdoc c)) V)))
             else map_of loglikelihood (w, c)))"
proof (induction classes arbitrary: loglikelihood)
  case Nil
  then show ?case by simp
next
  case (Cons a classes)
  from Cons.prems obtain bucket ll1 where
    bucket: "map_of bigdoc a = Some bucket" and
    words: "word_likelihoods bucket (total_words bucket V) a loglikelihood V = Inr ll1" and
    rest: "class_likelihoods bigdoc V ll1 classes = Inr ll'"
    by (auto simp: dict_index_def split: option.splits sum.splits)
  note w = word_likelihoods_result [OF words]
  note r = Cons.IH [OF rest]
  show ?case
  proof (intro conjI ballI allI)
    fix c assume "c \<in> set (a # classes)"
    then show "\<exists>bucket. map_of bigdoc c = Some bucket
            \<and> (\<forall>w\<in>set V. 0 < real_of_int (dict_get bucket w 0 + 1) / real_of_int (total_words bucket V))"
      using bucket w r by auto
  next
    fix w' c
    show "map_of ll' (w', c) =
            (if w' \<in> set V \<and> c \<in> set (a # classes)
             then Some (ln (real_of_int (dict_get (the (map_of bigdoc c)) w' 0 + 1)
                            / real_of_int (total_words (the (map_of bigdoc c)) V)))
             else map_of loglikelihood (w', c))"
      using bucket w r by auto
  qed
qed

lemma class_likelihoods_succeeds:
  "\<forall>c\<in>set classes. \<exists>bucket. map_of bigdoc c = Some bucket
       \<and> (\<forall>w\<in>set V. 0 < real_of_int (dict_get bucket w 0 + 1) / real_of_int (total_words bucket V))
     \<Longrightarrow> \<exists>ll'. class_likelihoods bigdoc V loglikelihood classes = Inr ll'"
proof (induction classes arbitrary: loglikelihood)
  case Nil
  then show ?case by simp
next
  case (Cons a classes)
  then obtain bucket where
    bucket: "map_of bigdoc a = Some bucket" and
    pos: "\<forall>w\<in>set V. 0 < real_of_int (dict_get bucket w 0 + 1) / real_of_int (total_words bucket V)"
    by auto
  from word_likelihoods_succeeds [OF pos] obtain ll1 where
    "word_likelihoods bucket (total_words bucket V) a loglikelihood V = Inr ll1"
    by blast
  with Cons bucket show ?case
    by (simp add: dict_index_def)
qed

lemma sum_list_indicator_absent:
  "w \<notin> set V \<Longrightarrow> (\<Sum>v\<leftarrow>V. if w = v then n else 0) = (0::'a::comm_monoid_add)"
  by (induction V) auto

lemma sum_list_indicator:
  "distinct V \<Longrightarrow> w \<in> set V \<Longrightarrow> (\<Sum>v\<leftarrow>V. if w = v then n else 0) = (n::'a::comm_monoid_add)"
  by (induction V) (auto simp: sum_list_indicator_absent)

lemma sum_count_in_doc:
  "distinct V \<Longrightarrow> fst ` set word_counts \<subseteq> set V
     \<Longrightarrow> (\<Sum>w\<leftarrow>V. count_in_doc word_counts w) = sum_list (map snd word_counts)"
proof (induction word_counts)
  case Nil
  then show ?case by (simp add: count_in_doc_def)
next
  case (Cons item items)
  obtain word n where item: "item = (word, n)" by (cases item)
  with Cons.prems have "word \<in> set V" by simp
  with Cons show ?case
    by (simp add: item count_in_doc_Cons sum_list_addf sum_list_indicator)
qed

lemma sum_count_in_class:
  "distinct V \<Longrightarrow> \<forall>d\<in>set documents. fst ` set (fst d) \<subseteq> set V
     \<Longrightarrow> (\<Sum>w\<leftarrow>V. count_in_class documents c w) = total_in_class documents c"
proof (induction documents)
  case Nil
  then show ?case by (simp add: count_in_class_def total_in_class_def)
next
  case (Cons d documents)
  then have "(\<Sum>w\<leftarrow>V. count_in_doc (fst d) w) = sum_list (map snd (fst d))"
    by (simp add: sum_count_in_doc)
  moreover have "(\<Sum>w\<leftarrow>V. count_in_class documents c w) = total_in_class documents c"
    using Cons by simp
  moreover have "count_in_class (d # documents) c w =
      (if snd d = c then count_in_doc (fst d) w else 0) + count_in_class documents c w" for w
    by (simp add: count_in_class_def)
  moreover have "total_in_class (d # documents) c =
      (if snd d = c then sum_list (map snd (fst d)) else 0) + total_in_class documents c"
    by (simp add: total_in_class_def)
  ultimately show ?case
    by (simp add: sum_list_addf)
qed

lemma sum_docs_in_class:
  "distinct classes \<Longrightarrow> \<forall>d\<in>set documents. snd d \<in> set classes
     \<Longrightarrow> (\<Sum>c\<leftarrow>classes. docs_in_class documents c) = length documents"
proof (induction documents)
  case Nil
  then show ?case by (simp add: docs_in_class_def)
next
  case (Cons d documents)
  have "docs_in_class (d # documents) c = (if snd d = c then 1 else 0) + docs_in_class documents c" for c
    by (simp add: docs_in_class_def)
  moreover have "(\<Sum>c\<leftarrow>classes. if snd d = c then 1 else 0) = (1::nat)"
    using Cons.prems by (simp add: sum_list_indicator)
  ultimately show ?case
    using Cons by (simp add: sum_list_addf)
qed

lemma sum_list_divide_const:
  "(\<Sum>x\<leftarrow>xs. f x / d) = (\<Sum>x\<leftarrow>xs. f x) / (d::real)"
  by (induction xs) (auto simp: add_divide_distrib)

lemma of_int_sum_list_map:
  "(\<Sum>x\<leftarrow>xs. real_of_int (f x)) = real_of_int (\<Sum>x\<leftarrow>xs. f x)"
  by (induction xs) auto

lemma of_nat_sum_list_map:
  "(\<Sum>x\<leftarrow>xs. real (f x)) = real (\<Sum>x\<leftarrow>xs. f x)"
  by (induction xs) auto

lemma sum_list_plus_one:
  "(\<Sum>x\<leftarrow>xs. f x + 1) = (\<Sum>x\<leftarrow>xs. f x) + int (length xs)"
  by (induction xs) auto

lemma train_stages:
  "train_naive_bayes documents classes = Inr (V, logprior, loglikelihood) \<longleftrightarrow>
     (\<exists>class_counts bigdoc.
        count_classes (dict_from_keys (\<lambda>c. 0) classes) documents = Inr class_counts
      \<and> V = collect_vocabulary [] documents
      \<and> class_priors class_counts (length documents) [] classes = Inr logprior
      \<and> build_bigdoc (dict_from_keys (\<lambda>c. []) classes) documents = Inr bigdoc
      \<and> class_likelihoods bigdoc (collect_vocabulary [] documents) [] classes = Inr loglikelihood)"
  unfolding train_naive_bayes_def Let_def
  by (auto split: sum.splits)

lemma train_result:
  assumes "train_naive_bayes documents classes = Inr (V, logprior, loglikelihood)"
  shows "\<forall>d\<in>set documents. snd d \<in> set classes"
    and "V = collect_vocabulary [] documents"
    and "c \<in> set classes \<Longrightarrow>
           map_of logprior c = Some (ln (real (docs_in_class documents c) / real (length documents)))"
    and "c \<in> set classes \<Longrightarrow> w \<in> set V \<Longrightarrow>
           0 < real_of_int (count_in_class documents c w + 1)
                 / real_of_int (total_in_class documents c + int (length V))
           \<and> map_of loglikelihood (w, c) =
               Some (ln (real_of_int (count_in_class documents c w + 1)
                         / real_of_int (total_in_class documents c + int (length V))))"
proof -
  from assms obtain class_counts bigdoc where
    cc: "count_classes (dict_from_keys (\<lambda>c. 0) classes) documents = Inr class_counts" and
    lp: "class_priors class_counts (length documents) [] classes = Inr logprior" and
    bd: "build_bigdoc (dict_from_keys (\<lambda>c. []) classes) documents = Inr bigdoc" and
    ll: "class_likelihoods bigdoc V [] classes = Inr loglikelihood" and
    V: "V = collect_vocabulary [] documents"
    unfolding train_stages by blast
  show "V = collect_vocabulary [] documents" by (fact V)
  show labels: "\<forall>d\<in>set documents. snd d \<in> set classes"
  proof (rule ccontr)
    assume "\<not> (\<forall>d\<in>set documents. snd d \<in> set classes)"
    then have "\<exists>d\<in>set documents. snd d \<notin> fst ` set (dict_from_keys (\<lambda>c. 0::nat) classes)"
      by (simp add: keys_dict_from_keys)
    from count_classes_unknown_label [OF this] cc show False by simp
  qed
  {
    assume c: "c \<in> set classes"
    have "\<forall>d\<in>set documents. snd d \<in> fst ` set (dict_from_keys (\<lambda>c. 0::nat) classes)"
      using labels by (simp add: keys_dict_from_keys)
    from count_classes_result [OF this] cc
    have "map_of class_counts c = Some (docs_in_class documents c)"
      using c by (auto simp: map_of_dict_from_keys)
    with class_priors_result [OF lp, of c] c
    show "map_of logprior c = Some (ln (real (docs_in_class documents c) / real (length documents)))"
      by simp
  }
  {
    assume c: "c \<in> set classes" and w: "w \<in> set V"
    from build_bigdoc_initial [OF labels c] bd obtain bucket where
      bucket: "map_of bigdoc c = Some bucket" and
      get: "\<And>w. dict_get bucket w 0 = count_in_class documents c w" and
      sum: "sum_list (map snd bucket) = total_in_class documents c"
      by auto
    from class_likelihoods_result [OF ll] c w bucket
    show "0 < real_of_int (count_in_class documents c w + 1)
                 / real_of_int (total_in_class documents c + int (length V))
           \<and> map_of loglikelihood (w, c) =
               Some (ln (real_of_int (count_in_class documents c w + 1)
                         / real_of_int (total_in_class documents c + int (length V))))"
      by (fastforce simp: get sum total_words_def)
  }
qed

lemma likelihood_mass_eq:
  "\<forall>w\<in>set V. map_of loglikelihood (w, c) = Some (f w)
     \<Longrightarrow> likelihood_mass loglikelihood c V = Inr (\<Sum>w\<leftarrow>V. exp (f w))"
  by (induction V) (auto simp: dict_index_def)

lemma prior_mass_eq:
  "\<forall>c\<in>set classes. map_of logprior c = Some (f c)
     \<Longrightarrow> prior_mass logprior classes = Inr (\<Sum>c\<leftarrow>classes. exp (f c))"
  by (induction classes) (auto simp: dict_index_def)

lemma count_in_doc_nonneg: "\<forall>p\<in>set word_counts. 0 \<le> snd p \<Longrightarrow> 0 \<le> count_in_doc word_counts w"
  unfolding count_in_doc_def by (rule sum_list_nonneg) auto

lemma count_in_class_nonneg: "nonneg_counts documents \<Longrightarrow> 0 \<le> count_in_class documents c w"
  unfolding count_in_class_def nonneg_counts_def
  by (rule sum_list_nonneg) (auto intro: count_in_doc_nonneg)

lemma total_in_class_nonneg: "nonneg_counts documents \<Longrightarrow> 0 \<le> total_in_class documents c"
  unfolding total_in_class_def nonneg_counts_def
  by (rule sum_list_nonneg) (force intro!: sum_list_nonneg)

lemma train_succeeds:
  assumes nonempty: "documents \<noteq> []"
    and labels: "\<forall>d\<in>set documents. snd d \<in> set classes"
    and seen: "\<forall>c\<in>set classes. 0 < docs_in_class documents c"
    and nonneg: "nonneg_counts documents"
  shows "\<exists>V logprior loglikelihood. train_naive_bayes documents classes = Inr (V, logprior, loglikelihood)"
proof -
  let ?V = "collect_vocabulary [] documents"
  have "\<forall>d\<in>set documents. snd d \<in> fst ` set (dict_from_keys (\<lambda>c. 0::nat) classes)"
    using labels by (simp add: keys_dict_from_keys)
  from count_classes_result [OF this] obtain class_counts where
    cc: "count_classes (dict_from_keys (\<lambda>c. 0) classes) documents = Inr class_counts" and
    cc_map: "\<And>c. map_of class_counts c =
               map_option (\<lambda>n. n + docs_in_class documents c) (map_of (dict_from_keys (\<lambda>c. 0) classes) c)"
    by blast
  have "\<forall>c\<in>set classes. \<exists>n. map_of class_counts c = Some n \<and> 0 < n"
    using seen by (simp add: cc_map map_of_dict_from_keys)
  moreover have "0 < length documents" using nonempty by simp
  ultimately obtain logprior where
    lp: "class_priors class_counts (length documents) [] classes = Inr logprior"
    using class_priors_succeeds by blast
  have "\<forall>d\<in>set documents. map_of (dict_from_keys (\<lambda>c. []::(string, int) dict) classes) (snd d) \<noteq> None"
    using labels by (simp add: map_of_dict_from_keys)
  from build_bigdoc_result [OF this] obtain bigdoc where
    bd: "build_bigdoc (dict_from_keys (\<lambda>c. []) classes) documents = Inr bigdoc"
    by blast
  have "\<exists>bucket. map_of bigdoc c = Some bucket
          \<and> (\<forall>w\<in>set ?V. 0 < real_of_int (dict_get bucket w 0 + 1) / real_of_int (total_words bucket ?V))"
    if c: "c \<in> set classes" for c
  proof -
    from build_bigdoc_initial [OF labels c] bd obtain bucket where
      bucket: "map_of bigdoc c = Some bucket" and
      get: "\<And>w. dict_get bucket w 0 = count_in_class documents c w" and
      sum: "sum_list (map snd bucket) = total_in_class documents c"
      by auto
    have "0 < real_of_int (dict_get bucket w 0 + 1) / real_of_int (total_words bucket ?V)"
      if "w \<in> set ?V" for w
    proof -
      from that have "0 < int (length ?V)" by (cases ?V) auto
      then have "0 < total_words bucket ?V"
        using total_in_class_nonneg [OF nonneg, of c] unfolding total_words_def sum by linarith
      moreover have "0 < dict_get bucket w 0 + 1"
        using count_in_class_nonneg [OF nonneg, of c w] by (simp add: get)
      ultimately show ?thesis by simp
    qed
    with bucket show ?thesis by blast
  qed
  then obtain loglikelihood where
    "class_likelihoods bigdoc ?V [] classes = Inr loglikelihood"
    using class_likelihoods_succeeds by blast
  with cc lp bd show ?thesis
    by (simp add: train_stages)
qed

lemma scenario_trains:
  "\<exists>V logprior loglikelihood.
     train_naive_bayes scenario_docs [''pos'', ''neg''] = Inr (V, logprior, loglikelihood)
     \<and> ''bad'' \<in> set V"
  by (simp add: nb_eval scenario_docs_def)

lemma scenario_nonneg: "nonneg_counts scenario_docs"
  by (simp add: nonneg_counts_def scenario_docs_def)

section \<open>Labels outside the class set\<close>

text \<open>
  Claim C8 says that a training document whose label is not in the class set is
  accumulated silently under a fresh bucket keyed by that label. The dictionaries of the
  code are plain \<open>dict\<close>s filled from \<open>classes\<close>, not default-initialising ones: for
  the class set pos, neg and the single document \<open>({good: 1}, neutral)\<close>, the statement
  \<open>class_counts[label] += 1\<close> raises \<open>KeyError\<close> and nothing is returned.
\<close>

theorem unknown_label_no_fresh_bucket:
  "train_naive_bayes [([(''good'', 1)], ''neutral'')] [''pos'', ''neg''] = Inl KeyError"
  by (simp add: nb_eval)

text \<open>
  Claim C8, as amended. \<open>train_naive_bayes\<close> has no membership test of its own, but
  whenever some training document has a label that is not in the class set, the call
  fails with \<open>KeyError\<close>: no bucket is created and no model is returned.
\<close>

theorem unknown_label_raises_KeyError:
  assumes "(word_counts, label) \<in> set documents" and "label \<notin> set classes"
  shows "train_naive_bayes documents classes = Inl KeyError"
proof -
  have "\<exists>d\<in>set documents. snd d \<notin> fst ` set (dict_from_keys (\<lambda>c. 0::nat) classes)"
    using assms by (force simp: keys_dict_from_keys)
  then show ?thesis
    by (simp add: train_naive_bayes_def count_classes_unknown_label)
qed

theorem unknown_label_raises_KeyError_witness:
  "train_naive_bayes [([(''fine'', 1)], ''pos''), ([(''dull'', 3)], ''neutral'')] [''pos'', ''neg'']
     = Inl KeyError"
  using unknown_label_raises_KeyError
    [of "[(''dull'', 3)]" "''neutral''" "[([(''fine'', 1)], ''pos''), ([(''dull'', 3)], ''neutral'')]" "[''pos'', ''neg'']"]
  by simp

section \<open>The trained parameters\<close>

text \<open>
  Claim C2. Let training return a model for documents whose word counts are all
  non-negative. Then for every word \<open>w\<close> of the vocabulary and every class \<open>c\<close> of the
  class set the table \<open>loglikelihood\<close> has an entry for \<open>(w, c)\<close>, and the entry is the
  logarithm of (count of \<open>w\<close> in class \<open>c\<close> + 1) / (total word count of \<open>c\<close> + |V|), a
  strictly positive number with a positive numerator and a positive denominator; this
  holds also when \<open>w\<close> never occurs in a document of class \<open>c\<close>.
\<close>

theorem loglikelihood_entries_positive:
  assumes "train_naive_bayes documents classes = Inr (V, logprior, loglikelihood)"
    and "nonneg_counts documents" and "w \<in> set V" and "c \<in> set classes"
  shows "\<exists>p. map_of loglikelihood (w, c) = Some (ln p)
           \<and> p = real_of_int (count_in_class documents c w + 1)
                 / real_of_int (total_in_class documents c + int (card (set V)))
           \<and> 0 < p
           \<and> 0 < count_in_class documents c w + 1
           \<and> 0 < total_in_class documents c + int (card (set V))"
proof -
  have "V = collect_vocabulary [] documents"
    using assms(1) by (rule train_result(2))
  then have "distinct V"
    by (simp add: distinct_collect_vocabulary)
  then have card: "card (set V) = length V"
    by (rule distinct_card)
  from \<open>w \<in> set V\<close> have "0 < int (length V)" by (cases V) auto
  then have "0 < total_in_class documents c + int (card (set V))"
    using total_in_class_nonneg [OF assms(2), of c] unfolding card by linarith
  moreover have "0 < count_in_class documents c w + 1"
    using count_in_class_nonneg [OF assms(2), of c w] by linarith
  ultimately show ?thesis
    using train_result(4) [OF assms(1) assms(4) assms(3)] by (simp add: card)
qed

theorem loglikelihood_entries_positive_witness:
  "\<exists>V logprior loglikelihood.
     train_naive_bayes scenario_docs [''pos'', ''neg''] = Inr (V, logprior, loglikelihood)
     \<and> nonneg_counts scenario_docs \<and> ''bad'' \<in> set V \<and> ''pos'' \<in> set [''pos'', ''neg'']
     \<and> count_in_class scenario_docs ''pos'' ''bad'' = 0
     \<and> (\<exists>p. map_of loglikelihood (''bad'', ''pos'') = Some (ln p)
           \<and> p = real_of_int (count_in_class scenario_docs ''pos'' ''bad'' + 1)
                 / real_of_int (total_in_class scenario_docs ''pos'' + int (card (set V)))
           \<and> 0 < p
           \<and> 0 < count_in_class scenario_docs ''pos'' ''bad'' + 1
           \<and> 0 < total_in_class scenario_docs ''pos'' + int (card (set V)))"
proof -
  from scenario_trains obtain V logprior loglikelihood where
    t: "train_naive_bayes scenario_docs [''pos'', ''neg''] = Inr (V, logprior, loglikelihood)" and
    w: "''bad'' \<in> set V"
    by blast
  have c: "''pos'' \<in> set [''pos'', ''neg'']" by simp
  have z: "count_in_class scenario_docs ''pos'' ''bad'' = 0"
    by (simp add: count_in_class_def count_in_doc_def scenario_docs_def)
  from loglikelihood_entries_positive [OF t scenario_nonneg w c] t w c z scenario_nonneg
  show ?thesis by blast
qed

text \<open>
  Claim C3 says that for every class \<open>c\<close> the sum over the vocabulary of
  \<open>exp(loglikelihood[(w, c)])\<close> is 1. That fails when no training document has any
  word: for two documents without words, one per class, training returns an empty
  vocabulary and an empty table, and the sum over no words is 0.
\<close>

theorem empty_vocabulary_mass_zero:
  "train_naive_bayes [([], ''pos''), ([], ''neg'')] [''pos'', ''neg'']
     = Inr ([], [(''pos'', ln (1 / 2)), (''neg'', ln (1 / 2))], [])
   \<and> likelihood_mass [] ''pos'' [] = Inr 0"
  by (simp add: nb_eval)

text \<open>
  Claim C3, as amended. Whenever training returns a model whose vocabulary is not empty,
  then for every class \<open>c\<close> of the class set the sum over the words \<open>w\<close> of the
  vocabulary of \<open>exp(loglikelihood[(w, c)])\<close> is exactly 1 (in exact arithmetic).
\<close>

theorem likelihoods_normalize:
  assumes "train_naive_bayes documents classes = Inr (V, logprior, loglikelihood)"
    and "V \<noteq> []" and "c \<in> set classes"
  shows "likelihood_mass loglikelihood c V = Inr 1"
proof -
  let ?D = "real_of_int (total_in_class documents c + int (length V))"
  let ?r = "\<lambda>w. real_of_int (count_in_class documents c w + 1) / ?D"
  have V: "V = collect_vocabulary [] documents"
    using assms(1) by (rule train_result(2))
  then have dist: "distinct V"
    by (simp add: distinct_collect_vocabulary)
  have entry: "0 < ?r w \<and> map_of loglikelihood (w, c) = Some (ln (?r w))" if "w \<in> set V" for w
    using train_result(4) [OF assms(1) assms(3) that] .
  obtain w0 where "w0 \<in> set V" using assms(2) by (cases V) auto
  with entry have "0 < ?r w0" by blast
  then have D: "?D \<noteq> 0" by auto
  have "likelihood_mass loglikelihood c V = Inr (\<Sum>w\<leftarrow>V. exp (ln (?r w)))"
    by (rule likelihood_mass_eq) (simp add: entry)
  also have "(\<Sum>w\<leftarrow>V. exp (ln (?r w))) = (\<Sum>w\<leftarrow>V. ?r w)"
  proof (rule arg_cong [where f = sum_list], rule map_cong [OF refl])
    fix w assume "w \<in> set V"
    from entry [OF this, THEN conjunct1] show "exp (ln (?r w)) = ?r w"
      by (rule exp_ln)
  qed
  also have "\<dots> = real_of_int (\<Sum>w\<leftarrow>V. count_in_class documents c w + 1) / ?D"
    by (simp only: sum_list_divide_const of_int_sum_list_map)
  also have "(\<Sum>w\<leftarrow>V. count_in_class documents c w + 1) = total_in_class documents c + int (length V)"
    using sum_count_in_class [OF dist, of documents c] vocabulary_covers_documents [of documents]
    by (simp add: sum_list_plus_one V)
  also have "?D / ?D = 1"
    using D by simp
  finally show ?thesis .
qed

theorem likelihoods_normalize_witness:
  "\<exists>V logprior loglikelihood.
     train_naive_bayes scenario_docs [''pos'', ''neg''] = Inr (V, logprior, loglikelihood)
     \<and> V \<noteq> [] \<and> ''pos'' \<in> set [''pos'', ''neg'']
     \<and> likelihood_mass loglikelihood ''pos'' V = Inr 1"
proof -
  from scenario_trains obtain V logprior loglikelihood where
    t: "train_naive_bayes scenario_docs [''pos'', ''neg''] = Inr (V, logprior, loglikelihood)" and
    w: "''bad'' \<in> set V"
    by blast
  from w have v: "V \<noteq> []" by auto
  have c: "''pos'' \<in> set [''pos'', ''neg'']" by simp
  from likelihoods_normalize [OF t v c] t v c show ?thesis by blast
qed

text \<open>
  Claim C4. For a non-empty list of training documents whose labels all belong to the
  class set, every class having at least one document, the counting loop and the prior
  loop of \<open>train_naive_bayes\<close> return; \<open>logprior[c]\<close> is \<open>ln (count(c) / N)\<close> for
  every class \<open>c\<close>, with no smoothing term; and the sum over the classes of
  \<open>exp(logprior[c])\<close> is exactly 1. Any model that training returns carries this
  \<open>logprior\<close>, and training does return one when the word counts are non-negative.
\<close>

theorem logprior_is_log_class_fraction:
  assumes nonempty: "documents \<noteq> []" and dist: "distinct classes"
    and labels: "\<forall>d\<in>set documents. snd d \<in> set classes"
    and seen: "\<forall>c\<in>set classes. 0 < docs_in_class documents c"
  shows "\<exists>class_counts logprior.
           count_classes (dict_from_keys (\<lambda>c. 0) classes) documents = Inr class_counts
         \<and> class_priors class_counts (length documents) [] classes = Inr logprior
         \<and> (\<forall>c\<in>set classes.
               map_of logprior c = Some (ln (real (docs_in_class documents c) / real (length documents))))
         \<and> prior_mass logprior classes = Inr 1
         \<and> (\<forall>V lp ll. train_naive_bayes documents classes = Inr (V, lp, ll) \<longrightarrow> lp = logprior)
         \<and> (nonneg_counts documents \<longrightarrow>
               (\<exists>V ll. train_naive_bayes documents classes = Inr (V, logprior, ll)))"
proof -
  let ?N = "real (length documents)"
  have "\<forall>d\<in>set documents. snd d \<in> fst ` set (dict_from_keys (\<lambda>c. 0::nat) classes)"
    using labels by (simp add: keys_dict_from_keys)
  from count_classes_result [OF this] obtain class_counts where
    cc: "count_classes (dict_from_keys (\<lambda>c. 0) classes) documents = Inr class_counts" and
    cc_map: "\<And>c. map_of class_counts c =
               map_option (\<lambda>n. n + docs_in_class documents c) (map_of (dict_from_keys (\<lambda>c. 0) classes) c)"
    by blast
  have counts: "map_of class_counts c = Some (docs_in_class documents c)" if "c \<in> set classes" for c
    using that by (simp add: cc_map map_of_dict_from_keys)
  have N: "0 < length documents" using nonempty by simp
  have "\<forall>c\<in>set classes. \<exists>n. map_of class_counts c = Some n \<and> 0 < n"
    using seen counts by simp
  with N obtain logprior where
    lp: "class_priors class_counts (length documents) [] classes = Inr logprior"
    using class_priors_succeeds by blast
  have prior: "map_of logprior c = Some (ln (real (docs_in_class documents c) / ?N))"
    if "c \<in> set classes" for c
    using class_priors_result [OF lp, of c] that counts by simp
  have "prior_mass logprior classes = Inr (\<Sum>c\<leftarrow>classes. exp (ln (real (docs_in_class documents c) / ?N)))"
    by (rule prior_mass_eq) (simp add: prior)
  also have "(\<Sum>c\<leftarrow>classes. exp (ln (real (docs_in_class documents c) / ?N)))
               = (\<Sum>c\<leftarrow>classes. real (docs_in_class documents c) / ?N)"
    by (rule arg_cong [where f = sum_list], rule map_cong) (use seen N in simp_all)
  also have "\<dots> = real (\<Sum>c\<leftarrow>classes. docs_in_class documents c) / ?N"
    by (simp only: sum_list_divide_const of_nat_sum_list_map)
  also have "\<dots> = 1"
    using sum_docs_in_class [OF dist labels] N by simp
  finally have mass: "prior_mass logprior classes = Inr 1" .
  have same: "\<forall>V lp ll. train_naive_bayes documents classes = Inr (V, lp, ll) \<longrightarrow> lp = logprior"
    using cc lp by (auto simp: train_stages)
  have "\<exists>V ll. train_naive_bayes documents classes = Inr (V, logprior, ll)" if "nonneg_counts documents"
    using train_succeeds [OF nonempty labels seen that] same by blast
  with cc lp prior mass same show ?thesis by blast
qed

theorem logprior_is_log_class_fraction_witness:
  "scenario_docs \<noteq> [] \<and> distinct [''pos'', ''neg'']
   \<and> list_all (\<lambda>d. snd d \<in> set [''pos'', ''neg'']) scenario_docs
   \<and> list_all (\<lambda>c. 0 < docs_in_class scenario_docs c) [''pos'', ''neg'']
   \<and> nonneg_counts scenario_docs
   \<and> (\<exists>V logprior ll.
         train_naive_bayes scenario_docs [''pos'', ''neg''] = Inr (V, logprior, ll)
       \<and> map_of logprior ''pos'' = Some (ln (real (docs_in_class scenario_docs ''pos'') / real (length scenario_docs)))
       \<and> map_of logprior ''neg'' = Some (ln (real (docs_in_class scenario_docs ''neg'') / real (length scenario_docs)))
       \<and> prior_mass logprior [''pos'', ''neg''] = Inr 1)"
proof -
  have h1: "scenario_docs \<noteq> []" by (simp add: scenario_docs_def)
  have h2: "distinct [''pos'', ''neg'']" by simp
  have h3: "\<forall>d\<in>set scenario_docs. snd d \<in> set [''pos'', ''neg'']" by (simp add: scenario_docs_def)
  have h4: "\<forall>c\<in>set [''pos'', ''neg'']. 0 < docs_in_class scenario_docs c"
    by (simp add: scenario_docs_def docs_in_class_def)
  from logprior_is_log_class_fraction [OF h1 h2 h3 h4] obtain logprior where
    prior: "\<forall>c\<in>set [''pos'', ''neg''].
              map_of logprior c = Some (ln (real (docs_in_class scenario_docs c) / real (length scenario_docs)))" and
    mass: "prior_mass logprior [''pos'', ''neg''] = Inr 1" and
    ret: "nonneg_counts scenario_docs \<longrightarrow>
            (\<exists>V ll. train_naive_bayes scenario_docs [''pos'', ''neg''] = Inr (V, logprior, ll))"
    by blast
  from ret scenario_nonneg obtain V ll where
    t: "train_naive_bayes scenario_docs [''pos'', ''neg''] = Inr (V, logprior, ll)"
    by blast
  from prior have
    "map_of logprior ''pos'' = Some (ln (real (docs_in_class scenario_docs ''pos'') / real (length scenario_docs)))"
    "map_of logprior ''neg'' = Some (ln (real (docs_in_class scenario_docs ''neg'') / real (length scenario_docs)))"
    by simp_all
  with t mass have "\<exists>V logprior ll.
         train_naive_bayes scenario_docs [''pos'', ''neg''] = Inr (V, logprior, ll)
       \<and> map_of logprior ''pos'' = Some (ln (real (docs_in_class scenario_docs ''pos'') / real (length scenario_docs)))
       \<and> map_of logprior ''neg'' = Some (ln (real (docs_in_class scenario_docs ''neg'') / real (length scenario_docs)))
       \<and> prior_mass logprior [''pos'', ''neg''] = Inr 1"
    by blast
  with h1 h2 h3 h4 scenario_nonneg show ?thesis
    unfolding list_all_iff by blast
qed

section \<open>What the classifier computes\<close>

text \<open>
  \<open>max\<close> keeps the first item among those of maximal value, and the dict \<open>scores\<close>
  lists the classes in the iteration order of the class set, whatever the arithmetic
  rounds to.
\<close>

lemma py_max_by_value_first:
  "zs \<noteq> [] \<Longrightarrow>
     \<exists>i<length zs. py_max_by_value zs = Inr (zs ! i)
       \<and> (\<forall>j<length zs. snd (zs ! j) \<le> snd (zs ! i))
       \<and> (\<forall>j<i. snd (zs ! j) < snd (zs ! i))"
proof -
  let ?step = "\<lambda>y best :: 'a \<times> real. if snd best < snd y then y else best"
  have main: "\<exists>i\<le>length xs. fold ?step xs x = (x # xs) ! i
       \<and> (\<forall>j\<le>length xs. snd ((x # xs) ! j) \<le> snd ((x # xs) ! i))
       \<and> (\<forall>j<i. snd ((x # xs) ! j) < snd ((x # xs) ! i))" for x :: "'a \<times> real" and xs
  proof (induction xs rule: rev_induct)
    case Nil
    then show ?case by simp
  next
    case (snoc y xs)
    then obtain i where i: "i \<le> length xs" and
      best: "fold ?step xs x = (x # xs) ! i" and
      ge: "\<forall>j\<le>length xs. snd ((x # xs) ! j) \<le> snd ((x # xs) ! i)" and
      first: "\<forall>j<i. snd ((x # xs) ! j) < snd ((x # xs) ! i)"
      by blast
    have old: "(x # xs @ [y]) ! j = (x # xs) ! j" if "j \<le> length xs" for j
      using that by (metis Cons_eq_appendI length_Cons less_Suc_eq_le nth_append)
    have new: "(x # xs @ [y]) ! Suc (length xs) = y"
      by (metis Cons_eq_appendI length_Cons nth_append_length)
    show ?case
    proof (cases "snd ((x # xs) ! i) < snd y")
      case True
      have "fold ?step (xs @ [y]) x = (x # xs @ [y]) ! Suc (length xs)"
        using True best new by simp
      moreover have "\<forall>j\<le>length (xs @ [y]). snd ((x # xs @ [y]) ! j) \<le> snd ((x # xs @ [y]) ! Suc (length xs))"
      proof (intro allI impI)
        fix j assume "j \<le> length (xs @ [y])"
        then consider "j \<le> length xs" | "j = Suc (length xs)" by fastforce
        then show "snd ((x # xs @ [y]) ! j) \<le> snd ((x # xs @ [y]) ! Suc (length xs))"
        proof cases
          case 1
          with ge True show ?thesis by (simp only: old new) force
        next
          case 2
          then show ?thesis by simp
        qed
      qed
      moreover have "\<forall>j<Suc (length xs). snd ((x # xs @ [y]) ! j) < snd ((x # xs @ [y]) ! Suc (length xs))"
      proof (intro allI impI)
        fix j assume "j < Suc (length xs)"
        then have j: "j \<le> length xs" by simp
        with ge True show "snd ((x # xs @ [y]) ! j) < snd ((x # xs @ [y]) ! Suc (length xs))"
          by (simp only: old new) force
      qed
      ultimately show ?thesis
        by (intro exI [of _ "Suc (length xs)"]) simp
    next
      case False
      have "fold ?step (xs @ [y]) x = (x # xs @ [y]) ! i"
        using False best old [OF i] by simp
      moreover have "\<forall>j\<le>length (xs @ [y]). snd ((x # xs @ [y]) ! j) \<le> snd ((x # xs @ [y]) ! i)"
      proof (intro allI impI)
        fix j assume "j \<le> length (xs @ [y])"
        then consider "j \<le> length xs" | "j = Suc (length xs)" by fastforce
        then show "snd ((x # xs @ [y]) ! j) \<le> snd ((x # xs @ [y]) ! i)"
        proof cases
          case 1
          with ge show ?thesis by (simp only: old [OF 1] old [OF i])
        next
          case 2
          with False show ?thesis by (simp only: new old [OF i])
        qed
      qed
      moreover have "\<forall>j<i. snd ((x # xs @ [y]) ! j) < snd ((x # xs @ [y]) ! i)"
      proof (intro allI impI)
        fix j assume "j < i"
        with i have "j \<le> length xs" by simp
        with first \<open>j < i\<close> show "snd ((x # xs @ [y]) ! j) < snd ((x # xs @ [y]) ! i)"
          by (simp only: old old [OF i])
      qed
      ultimately show ?thesis
        using i by (intro exI [of _ i]) simp
    qed
  qed
  assume "zs \<noteq> []"
  then obtain x xs where zs: "zs = x # xs" by (cases zs) auto
  from main [of xs x] show ?thesis
    unfolding zs by (auto simp: less_Suc_eq_le)
qed

lemma update_absent_key:
  "k \<notin> fst ` set al \<Longrightarrow> AList.update k v al = al @ [(k, v)]"
  by (induction al) auto

lemma update_present_keys:
  "k \<in> fst ` set al \<Longrightarrow> map fst (AList.update k v al) = map fst al"
  by (simp add: AList.update_keys)

lemma init_scores_result:
  "distinct classes \<Longrightarrow> \<forall>c\<in>set classes. map_of logprior c \<noteq> None
     \<Longrightarrow> set classes \<inter> fst ` set scores = {}
     \<Longrightarrow> init_scores logprior scores classes
           = Inr (scores @ map (\<lambda>c. (c, dict_get logprior c 0)) classes)"
proof (induction classes arbitrary: scores)
  case Nil
  then show ?case by simp
next
  case (Cons c classes)
  from Cons.prems obtain p where p: "map_of logprior c = Some p" by auto
  from Cons.prems have "c \<notin> fst ` set scores" by auto
  then have upd: "AList.update c p scores = scores @ [(c, p)]"
    by (rule update_absent_key)
  have "set classes \<inter> fst ` set (scores @ [(c, p)]) = {}"
    using Cons.prems by auto
  with Cons have "init_scores logprior (scores @ [(c, p)]) classes
      = Inr ((scores @ [(c, p)]) @ map (\<lambda>c. (c, dict_get logprior c 0)) classes)"
    by simp
  then show ?case
    by (simp add: dict_index_def dict_get_def p upd)
qed

lemma init_scores_known:
  "init_scores logprior scores classes = Inr scores' \<Longrightarrow> \<forall>c\<in>set classes. map_of logprior c \<noteq> None"
proof (induction classes arbitrary: scores)
  case Nil
  then show ?case by simp
next
  case (Cons c classes)
  from Cons.prems obtain p where
    p: "map_of logprior c = Some p" and
    rest: "init_scores logprior (AList.update c p scores) classes = Inr scores'"
    by (auto simp: dict_index_def split: option.splits)
  from Cons.IH [OF rest] p show ?case by simp
qed

lemma add_word_scores_keys:
  "add_word_scores fadd fmul loglikelihood word n scores classes = Inr scores'
     \<Longrightarrow> map fst scores' = map fst scores"
proof (induction classes arbitrary: scores)
  case Nil
  then show ?case by simp
next
  case (Cons a classes)
  from Cons.prems obtain s t where
    s: "map_of scores a = Some s" and
    rest: "add_word_scores fadd fmul loglikelihood word n (AList.update a (fadd s t) scores) classes
           = Inr scores'"
    by (auto simp: dict_index_def split: option.splits sum.splits)
  from s have "a \<in> fst ` set scores"
    by (metis map_of_eq_None_iff option.distinct(1))
  then have "map fst (AList.update a (fadd s t) scores) = map fst scores"
    by (rule update_present_keys)
  with Cons.IH [OF rest] show ?case by simp
qed

lemma add_word_scores_succeeds:
  "set classes \<subseteq> fst ` set scores \<Longrightarrow> \<forall>count x. \<exists>y. fmul count x = Inr y
     \<Longrightarrow> \<exists>scores'. add_word_scores fadd fmul loglikelihood word n scores classes = Inr scores'"
proof (induction classes arbitrary: scores)
  case Nil
  then show ?case by simp
next
  case (Cons a classes)
  then obtain s where s: "map_of scores a = Some s"
    by (metis list.set_intros(1) map_of_eq_None_iff not_Some_eq subsetD)
  from Cons.prems(2) obtain t where t: "count_times_likelihood fmul loglikelihood word a n = Inr t"
    by (cases "map_of loglikelihood (word, a)") (auto simp: count_times_likelihood_def)
  have "set classes \<subseteq> fst ` set (AList.update a (fadd s t) scores)"
    using Cons.prems(1) by (auto simp: AList.dom_update)
  from Cons.IH [OF this Cons.prems(2)] show ?case
    by (simp add: dict_index_def s t)
qed

lemma score_words_keys:
  "score_words fadd fmul V loglikelihood classes scores word_counts = Inr scores'
     \<Longrightarrow> map fst scores' = map fst scores"
proof (induction word_counts arbitrary: scores)
  case Nil
  then show ?case by simp
next
  case (Cons item items)
  obtain word n where item: "item = (word, n)" by (cases item)
  show ?case
  proof (cases "word \<in> set V")
    case True
    with Cons.prems obtain scores1 where
      one: "add_word_scores fadd fmul loglikelihood word n scores classes = Inr scores1" and
      rest: "score_words fadd fmul V loglikelihood classes scores1 items = Inr scores'"
      by (auto simp: item split: sum.splits)
    from Cons.IH [OF rest] add_word_scores_keys [OF one] show ?thesis by simp
  next
    case False
    with Cons.prems have "score_words fadd fmul V loglikelihood classes scores items = Inr scores'"
      by (simp add: item)
    from Cons.IH [OF this] show ?thesis .
  qed
qed

lemma score_words_succeeds:
  "set classes \<subseteq> fst ` set scores \<Longrightarrow> \<forall>count x. \<exists>y. fmul count x = Inr y
     \<Longrightarrow> \<exists>scores'. score_words fadd fmul V loglikelihood classes scores word_counts = Inr scores'"
proof (induction word_counts arbitrary: scores)
  case Nil
  then show ?case by simp
next
  case (Cons item items)
  obtain word n where item: "item = (word, n)" by (cases item)
  from add_word_scores_succeeds [OF Cons.prems] obtain scores1 where
    one: "add_word_scores fadd fmul loglikelihood word n scores classes = Inr scores1"
    by blast
  from add_word_scores_keys [OF one] have "fst ` set scores1 = fst ` set scores"
    by (metis list.set_map)
  with Cons.prems(1) have "set classes \<subseteq> fst ` set scores1" by simp
  from Cons.IH [OF this Cons.prems(2)] Cons.IH [OF Cons.prems] one
  show ?case
    by (simp add: item)
qed

lemma score_words_unknown:
  "\<forall>p\<in>set word_counts. fst p \<notin> set V
     \<Longrightarrow> score_words fadd fmul V loglikelihood classes scores word_counts = Inr scores"
  by (induction word_counts) auto

lemma final_scores_keys:
  assumes "final_scores fadd fmul word_counts V logprior loglikelihood classes = Inr scores"
    and dist: "distinct classes"
  shows "map fst scores = classes"
proof -
  from assms(1) obtain scores0 where
    init: "init_scores logprior [] classes = Inr scores0" and
    run: "score_words fadd fmul V loglikelihood classes scores0 word_counts = Inr scores"
    by (auto simp: final_scores_def split: sum.splits)
  from init_scores_known [OF init] have known: "\<forall>c\<in>set classes. map_of logprior c \<noteq> None" .
  from init_scores_result [OF dist known, of "[]"] init
  have "scores0 = map (\<lambda>c. (c, dict_get logprior c 0)) classes" by simp
  then have "map fst scores0 = classes" by (simp add: comp_def)
  with score_words_keys [OF run] show ?thesis by simp
qed

lemma final_scores_succeeds:
  assumes dist: "distinct classes" and known: "\<forall>c\<in>set classes. map_of logprior c \<noteq> None"
    and mul: "\<forall>count x. \<exists>y. fmul count x = Inr y"
  shows "\<exists>scores. final_scores fadd fmul word_counts V logprior loglikelihood classes = Inr scores"
proof -
  let ?init = "map (\<lambda>c. (c, dict_get logprior c 0)) classes"
  have init: "init_scores logprior [] classes = Inr ?init"
    using init_scores_result [OF dist known, of "[]"] by simp
  have "map fst ?init = classes" by (simp add: comp_def)
  then have "set classes \<subseteq> fst ` set ?init"
    by (metis list.set_map subset_refl)
  from score_words_succeeds [OF this mul] init show ?thesis
    by (simp add: final_scores_def)
qed

lemma test_naive_bayes_first_max:
  assumes "final_scores fadd fmul word_counts V logprior loglikelihood classes = Inr scores"
    and "scores \<noteq> []"
  shows "\<exists>i<length scores.
           test_naive_bayes fadd fmul word_counts V logprior loglikelihood classes = Inr (fst (scores ! i))
         \<and> (\<forall>j<length scores. snd (scores ! j) \<le> snd (scores ! i))
         \<and> (\<forall>j<i. snd (scores ! j) < snd (scores ! i))"
proof -
  from py_max_by_value_first [OF assms(2)] obtain i where
    "i < length scores" "py_max_by_value scores = Inr (scores ! i)"
    "\<forall>j<length scores. snd (scores ! j) \<le> snd (scores ! i)"
    "\<forall>j<i. snd (scores ! j) < snd (scores ! i)"
    by blast
  moreover from this assms(1)
  have "test_naive_bayes fadd fmul word_counts V logprior loglikelihood classes = Inr (fst (scores ! i))"
    by (simp add: test_naive_bayes_def)
  ultimately show ?thesis by blast
qed

text \<open>
  Claim C5. Let the class set be non-empty and every class have a log-prior. If no word
  of the document is in the vocabulary, then every class's final score is its log-prior
  (no addition or multiplication is done, so this holds for every arithmetic), and
  \<open>test_naive_bayes\<close> returns the class of highest log-prior; among several classes
  of highest log-prior it returns the one that comes first in the iteration order of the
  class set.
\<close>

theorem unknown_words_highest_prior:
  assumes "distinct classes" and "classes \<noteq> []"
    and "\<forall>c\<in>set classes. map_of logprior c \<noteq> None"
    and "\<forall>p\<in>set word_counts. fst p \<notin> set V"
  shows "final_scores fadd fmul word_counts V logprior loglikelihood classes
           = Inr (map (\<lambda>c. (c, dict_get logprior c 0)) classes)
       \<and> (\<exists>i<length classes.
             test_naive_bayes fadd fmul word_counts V logprior loglikelihood classes = Inr (classes ! i)
           \<and> (\<forall>j<length classes. dict_get logprior (classes ! j) 0 \<le> dict_get logprior (classes ! i) 0)
           \<and> (\<forall>j<i. dict_get logprior (classes ! j) 0 < dict_get logprior (classes ! i) 0))"
proof -
  let ?init = "map (\<lambda>c. (c, dict_get logprior c 0)) classes"
  have "init_scores logprior [] classes = Inr ?init"
    using init_scores_result [OF assms(1) assms(3), of "[]"] by simp
  then have fs: "final_scores fadd fmul word_counts V logprior loglikelihood classes = Inr ?init"
    by (simp add: final_scores_def score_words_unknown [OF assms(4)])
  have "?init \<noteq> []" using assms(2) by simp
  from test_naive_bayes_first_max [OF fs this] obtain i where
    i: "i < length classes" and
    r: "test_naive_bayes fadd fmul word_counts V logprior loglikelihood classes = Inr (fst (?init ! i))" and
    ge: "\<forall>j<length ?init. snd (?init ! j) \<le> snd (?init ! i)" and
    first: "\<forall>j<i. snd (?init ! j) < snd (?init ! i)"
    by auto
  have "test_naive_bayes fadd fmul word_counts V logprior loglikelihood classes = Inr (classes ! i)"
    using r i by simp
  moreover have "\<forall>j<length classes. dict_get logprior (classes ! j) 0 \<le> dict_get logprior (classes ! i) 0"
    using ge i by simp
  moreover have "\<forall>j<i. dict_get logprior (classes ! j) 0 < dict_get logprior (classes ! i) 0"
    using first i by simp
  ultimately show ?thesis using fs i by blast
qed

theorem unknown_words_highest_prior_witness:
  "distinct [''neg'', ''pos''] \<and> [''neg'', ''pos''] \<noteq> []
   \<and> list_all (\<lambda>c. map_of [(''pos'', ln (2 / 3)), (''neg'', ln (1 / 3))] c \<noteq> None) [''neg'', ''pos'']
   \<and> list_all (\<lambda>p. fst p \<notin> set [''great'']) [(''awful'', 3)]
   \<and> final_scores exact_add exact_mul [(''awful'', 3)] [''great''] [(''pos'', ln (2 / 3)), (''neg'', ln (1 / 3))]
        [((''great'', ''pos''), ln (2 / 3)), ((''great'', ''neg''), ln (1 / 2))] [''neg'', ''pos'']
      = Inr [(''neg'', ln (1 / 3)), (''pos'', ln (2 / 3))]
   \<and> test_naive_bayes exact_add exact_mul [(''awful'', 3)] [''great''] [(''pos'', ln (2 / 3)), (''neg'', ln (1 / 3))]
        [((''great'', ''pos''), ln (2 / 3)), ((''great'', ''neg''), ln (1 / 2))] [''neg'', ''pos'']
      = Inr ''pos''"
proof -
  let ?lp = "[(''pos'', ln (2 / 3)), (''neg'', ln (1 / 3 :: real))]"
  let ?ll = "[((''great'', ''pos''), ln (2 / 3)), ((''great'', ''neg''), ln (1 / 2 :: real))]"
  have h1: "distinct [''neg'', ''pos'']" by simp
  have h2: "[''neg'', ''pos''] \<noteq> []" by simp
  have h3: "\<forall>c\<in>set [''neg'', ''pos'']. map_of ?lp c \<noteq> None" by simp
  have h4: "\<forall>p\<in>set [(''awful'', 3::int)]. fst p \<notin> set [''great'']" by simp
  note t = unknown_words_highest_prior [OF h1 h2 h3 h4, of exact_add exact_mul ?ll]
  from t have fs: "final_scores exact_add exact_mul [(''awful'', 3)] [''great''] ?lp ?ll [''neg'', ''pos'']
      = Inr [(''neg'', ln (1 / 3)), (''pos'', ln (2 / 3))]"
    by (simp add: dict_get_def)
  from t obtain i where
    i: "i < length [''neg'', ''pos'']" and
    r: "test_naive_bayes exact_add exact_mul [(''awful'', 3)] [''great''] ?lp ?ll [''neg'', ''pos'']
          = Inr ([''neg'', ''pos''] ! i)" and
    ge: "\<forall>j<length [''neg'', ''pos'']. dict_get ?lp ([''neg'', ''pos''] ! j) 0 \<le> dict_get ?lp ([''neg'', ''pos''] ! i) 0"
    by blast
  have "i \<noteq> 0"
  proof
    assume "i = 0"
    have "(1::nat) < length [''neg'', ''pos'']" by simp
    with ge \<open>i = 0\<close> have "dict_get ?lp ([''neg'', ''pos''] ! 1) 0 \<le> dict_get ?lp ([''neg'', ''pos''] ! 0) 0"
      by blast
    then show False by (simp add: dict_get_def)
  qed
  with i have "i = 1" by simp
  with r have "test_naive_bayes exact_add exact_mul [(''awful'', 3)] [''great''] ?lp ?ll [''neg'', ''pos''] = Inr ''pos''"
    by simp
  with fs show ?thesis by simp
qed

text \<open>
  Claim C6. Let \<open>scores\<close> be the scores that the code has computed for a document,
  with whatever rounding its additions and multiplications do. The dict holds the
  classes in the iteration order of the class set. If the computed scores of the classes
  at positions \<open>a < b\<close> of that order are exactly equal and no class has a higher
  computed score, then \<open>test_naive_bayes\<close> returns a class of that maximal score at a
  position \<open>m \<le> a\<close> before which every class scores strictly less: the first of the
  tied classes, and never the class at position \<open>b\<close>.
\<close>

theorem tie_break_first_in_iteration_order:
  assumes "distinct classes"
    and "final_scores fadd fmul word_counts V logprior loglikelihood classes = Inr scores"
    and "a < b" and "b < length classes"
    and "snd (scores ! a) = snd (scores ! b)"
    and "\<forall>j<length classes. snd (scores ! j) \<le> snd (scores ! a)"
  shows "map fst scores = classes
       \<and> (\<exists>m\<le>a. test_naive_bayes fadd fmul word_counts V logprior loglikelihood classes = Inr (classes ! m)
             \<and> snd (scores ! m) = snd (scores ! a)
             \<and> (\<forall>j<m. snd (scores ! j) < snd (scores ! m)))
       \<and> test_naive_bayes fadd fmul word_counts V logprior loglikelihood classes \<noteq> Inr (classes ! b)"
proof -
  have keys: "map fst scores = classes"
    using assms(2) assms(1) by (rule final_scores_keys)
  then have len: "length scores = length classes"
    by (metis length_map)
  with assms(3,4) have "scores \<noteq> []" by auto
  from test_naive_bayes_first_max [OF assms(2) this] obtain i where
    i: "i < length classes" and
    r: "test_naive_bayes fadd fmul word_counts V logprior loglikelihood classes = Inr (fst (scores ! i))" and
    ge: "\<forall>j<length scores. snd (scores ! j) \<le> snd (scores ! i)" and
    first: "\<forall>j<i. snd (scores ! j) < snd (scores ! i)"
    using len by auto
  have fi: "fst (scores ! i) = classes ! i"
    using keys i len by (metis nth_map)
  have a: "a < length classes" using assms(3,4) by simp
  have eq: "snd (scores ! i) = snd (scores ! a)"
    using ge a assms(6) i len by (metis order_antisym)
  have "i \<le> a"
  proof (rule ccontr)
    assume "\<not> i \<le> a"
    then have "a < i" by simp
    with first have "snd (scores ! a) < snd (scores ! i)" by simp
    with eq show False by simp
  qed
  moreover from this assms(3) have "i \<noteq> b" by simp
  then have "classes ! i \<noteq> classes ! b"
    using assms(1) i assms(4) by (simp add: nth_eq_iff_index_eq)
  ultimately show ?thesis
    using r fi eq first keys by auto
qed

theorem tie_break_first_in_iteration_order_witness:
  "distinct [''neg'', ''pos''] \<and> (0::nat) < 1 \<and> 1 < length [''neg'', ''pos'']
   \<and> final_scores exact_add exact_mul [(''movie'', 1)] [''movie''] [(''pos'', ln (1 / 2)), (''neg'', ln (1 / 2))]
        [((''movie'', ''pos''), ln (1 / 3)), ((''movie'', ''neg''), ln (1 / 3))] [''neg'', ''pos'']
      = Inr [(''neg'', ln (1 / 2) + ln (1 / 3)), (''pos'', ln (1 / 2) + ln (1 / 3))]
   \<and> test_naive_bayes exact_add exact_mul [(''movie'', 1)] [''movie''] [(''pos'', ln (1 / 2)), (''neg'', ln (1 / 2))]
        [((''movie'', ''pos''), ln (1 / 3)), ((''movie'', ''neg''), ln (1 / 3))] [''neg'', ''pos'']
      = Inr ''neg''"
proof -
  let ?lp = "[(''pos'', ln (1 / 2)), (''neg'', ln (1 / 2 :: real))]"
  let ?ll = "[((''movie'', ''pos''), ln (1 / 3)), ((''movie'', ''neg''), ln (1 / 3 :: real))]"
  let ?cs = "[''neg'', ''pos'']"
  let ?sc = "[(''neg'', ln (1 / 2) + ln (1 / 3 :: real)), (''pos'', ln (1 / 2) + ln (1 / 3))]"
  have h1: "distinct ?cs" by simp
  have h2: "final_scores exact_add exact_mul [(''movie'', 1)] [''movie''] ?lp ?ll ?cs = Inr ?sc"
    by (simp add: nb_eval)
  have h3: "(0::nat) < 1" by simp
  have h4: "1 < length ?cs" by simp
  have h5: "snd (?sc ! 0) = snd (?sc ! 1)" by simp
  have h6: "\<forall>j<length ?cs. snd (?sc ! j) \<le> snd (?sc ! 0)"
    by (simp add: less_Suc_eq)
  from tie_break_first_in_iteration_order [OF h1 h2 h3 h4 h5 h6]
  have "test_naive_bayes exact_add exact_mul [(''movie'', 1)] [''movie''] ?lp ?ll ?cs = Inr ''neg''"
    by simp
  with h1 h2 show ?thesis by simp
qed

section \<open>What the loader computes\<close>

text \<open>
  The loader adds to its vocabulary exactly the words that it stores in a document; and
  unpacking \<open>word_count.split(':')\<close> into two names accepts the same segments as
  splitting at the first colon, because \<open>int\<close> rejects every string with a colon in it.
\<close>

lemma parse_pairs_vocabulary:
  "parse_pairs word_counts vocabulary pairs = Inr (word_counts', vocabulary')
     \<Longrightarrow> \<exists>W. fst ` set word_counts' = fst ` set word_counts \<union> W
            \<and> set vocabulary' = set vocabulary \<union> W"
proof (induction pairs arbitrary: word_counts vocabulary)
  case Nil
  then show ?case by auto
next
  case (Cons word_count rest)
  from Cons.prems obtain word count n where
    "parse_pairs (AList.update word n word_counts) (List.insert word vocabulary) rest
       = Inr (word_counts', vocabulary')"
    by (auto split: list.splits sum.splits)
  from Cons.IH [OF this] obtain W where
    "fst ` set word_counts' = fst ` set (AList.update word n word_counts) \<union> W"
    "set vocabulary' = set (List.insert word vocabulary) \<union> W"
    by blast
  then have "fst ` set word_counts' = fst ` set word_counts \<union> (insert word W)
            \<and> set vocabulary' = set vocabulary \<union> (insert word W)"
    by (auto simp: AList.dom_update)
  then show ?case by blast
qed

lemma load_lines_vocabulary:
  "load_lines documents vocabulary lines = Inr (documents', vocabulary')
     \<Longrightarrow> \<exists>new. documents' = documents @ new
            \<and> set vocabulary' = set vocabulary \<union> (\<Union>d\<in>set new. fst ` set (fst d))"
proof (induction lines arbitrary: documents vocabulary)
  case Nil
  then show ?case by auto
next
  case (Cons line lines)
  show ?case
  proof (cases "py_split (py_strip line)")
    case Nil
    with Cons show ?thesis by simp
  next
    case (Cons label pairs)
    with Cons.prems obtain word_counts vocabulary1 where
      pp: "parse_pairs [] vocabulary pairs = Inr (word_counts, vocabulary1)" and
      rest: "load_lines (documents @ [(word_counts, label)]) vocabulary1 lines = Inr (documents', vocabulary')"
      by (auto split: sum.splits)
    from parse_pairs_vocabulary [OF pp] have v1: "set vocabulary1 = set vocabulary \<union> fst ` set word_counts"
      by auto
    from Cons.IH [OF rest] obtain new where
      "documents' = (documents @ [(word_counts, label)]) @ new"
      "set vocabulary' = set vocabulary1 \<union> (\<Union>d\<in>set new. fst ` set (fst d))"
      by blast
    then have "documents' = documents @ ((word_counts, label) # new)
        \<and> set vocabulary' = set vocabulary \<union> (\<Union>d\<in>set ((word_counts, label) # new). fst ` set (fst d))"
      using v1 by auto
    then show ?thesis by blast
  qed
qed

lemma split_on_first:
  "split_on sep cur s =
     (if sep \<in> set s
      then (cur @ takeWhile (\<lambda>ch. ch \<noteq> sep) s) # split_on sep [] (tl (dropWhile (\<lambda>ch. ch \<noteq> sep) s))
      else [cur @ s])"
proof (induction s arbitrary: cur)
  case Nil
  show ?case by simp
next
  case (Cons a s)
  show ?case
  proof (cases "a = sep")
    case True
    then show ?thesis by simp
  next
    case False
    then show ?thesis
      using Cons [of "cur @ [a]"] by simp
  qed
qed

lemma split_on_length: "length (split_on sep cur s) = Suc (length (filter (\<lambda>ch. ch = sep) s))"
  by (induction s arbitrary: cur) auto

lemma split_on_no_sep: "sep \<notin> set s \<Longrightarrow> split_on sep cur s = [cur @ s]"
  using split_on_first [of sep cur s] by simp

lemma split_on_sep:
  "sep \<in> set s \<Longrightarrow>
     split_on sep cur s
       = (cur @ takeWhile (\<lambda>ch. ch \<noteq> sep) s) # split_on sep [] (tl (dropWhile (\<lambda>ch. ch \<noteq> sep) s))"
  using split_on_first [of sep cur s] by simp

lemma split_on_two_seps:
  assumes "sep \<in> set s" and "sep \<in> set (tl (dropWhile (\<lambda>ch. ch \<noteq> sep) s))"
  shows "\<exists>a b c ds. split_on sep cur s = a # b # c # ds"
proof -
  let ?r = "tl (dropWhile (\<lambda>ch. ch \<noteq> sep) s)"
  let ?q = "tl (dropWhile (\<lambda>ch. ch \<noteq> sep) ?r)"
  obtain c ds where "split_on sep [] ?q = c # ds"
    using split_on_length [of sep "[]" ?q] by (cases "split_on sep [] ?q") simp_all
  then show ?thesis
    by (simp only: split_on_sep [OF assms(1)] split_on_sep [OF assms(2)]) blast
qed

lemma parse_digits_chars:
  "parse_digits acc after_digit s = Some n \<Longrightarrow> ch \<in> set s \<Longrightarrow> is_digit ch \<or> ch = CHR ''_''"
proof (induction s arbitrary: acc after_digit)
  case Nil
  then show ?case by simp
next
  case (Cons a s)
  show ?case
  proof (cases "is_digit a")
    case True
    with Cons.prems have "parse_digits (10 * acc + digit_value a) True s = Some n" by simp
    from Cons.IH [OF this] Cons.prems(2) True show ?thesis by auto
  next
    case False
    with Cons.prems have a: "a = CHR ''_''" and "parse_digits acc False s = Some n"
      by (simp_all split: if_splits)
    from Cons.IH [OF this(2)] Cons.prems(2) a show ?thesis by auto
  qed
qed

lemma parse_digits_colon:
  "CHR '':'' \<in> set r \<Longrightarrow> parse_digits acc b r = None"
proof (rule ccontr)
  assume c: "CHR '':'' \<in> set r" and "parse_digits acc b r \<noteq> None"
  then obtain n where "parse_digits acc b r = Some n" by auto
  from parse_digits_chars [OF this c] show False
    by (simp add: is_digit_def)
qed

lemma in_set_dropWhile: "x \<in> set xs \<Longrightarrow> \<not> P x \<Longrightarrow> x \<in> set (dropWhile P xs)"
  by (induction xs) auto

lemma in_set_py_strip: "ch \<in> set s \<Longrightarrow> \<not> is_space ch \<Longrightarrow> ch \<in> set (py_strip s)"
  by (simp add: py_strip_def in_set_dropWhile)

lemma py_int_error: "py_int s = Inl e \<Longrightarrow> e = ValueError"
  by (simp add: py_int_def split: option.splits)

lemma py_int_no_colon:
  assumes "CHR '':'' \<in> set s"
  shows "py_int s = Inl ValueError"
proof -
  have "\<not> is_space CHR '':''" by (simp add: is_space_def)
  with assms have c: "CHR '':'' \<in> set (py_strip s)" by (rule in_set_py_strip)
  show ?thesis
  proof (cases "py_strip s")
    case Nil
    then show ?thesis by (simp add: py_int_def)
  next
    case (Cons ch r)
    show ?thesis
    proof (cases "ch = CHR ''-'' \<or> ch = CHR ''+''")
      case True
      with c Cons have "CHR '':'' \<in> set r" by auto
      then have "parse_digits 0 False r = None" by (rule parse_digits_colon)
      with True Cons show ?thesis by (auto simp: py_int_def)
    next
      case False
      from c Cons have "parse_digits 0 False (ch # r) = None"
        by (simp only: parse_digits_colon)
      with False Cons show ?thesis by (simp add: py_int_def)
    qed
  qed
qed

lemma unpack_pair:
  "(case split_on CHR '':'' [] seg of
      [word, count] \<Rightarrow> (case py_int count of Inl e \<Rightarrow> Inl e | Inr n \<Rightarrow> f word n)
    | _ \<Rightarrow> Inl ValueError)
   = (case first_colon_pair seg of None \<Rightarrow> Inl ValueError | Some (word, n) \<Rightarrow> f word n)"
proof (cases "CHR '':'' \<in> set seg")
  case False
  then show ?thesis
    by (simp add: split_on_no_sep first_colon_pair_def)
next
  case True
  let ?w = "takeWhile (\<lambda>ch. ch \<noteq> CHR '':'') seg"
  let ?r = "tl (dropWhile (\<lambda>ch. ch \<noteq> CHR '':'') seg)"
  show ?thesis
  proof (cases "CHR '':'' \<in> set ?r")
    case False
    have s: "split_on CHR '':'' [] seg = [?w, ?r]"
      by (simp add: split_on_sep [OF True] split_on_no_sep [OF False])
    show ?thesis
    proof (cases "py_int ?r")
      case (Inl e)
      then have "e = ValueError" by (rule py_int_error)
      with Inl s True show ?thesis by (simp add: first_colon_pair_def)
    next
      case (Inr n)
      with s True show ?thesis by (simp add: first_colon_pair_def)
    qed
  next
    case c: True
    from split_on_two_seps [OF True c, of "[]"] obtain a b d ds where
      "split_on CHR '':'' [] seg = a # b # d # ds" by blast
    with True py_int_no_colon [OF c] show ?thesis
      by (simp add: first_colon_pair_def)
  qed
qed

lemma parse_pairs_step:
  "parse_pairs word_counts vocabulary (seg # rest) =
     (case first_colon_pair seg of
        None \<Rightarrow> Inl ValueError
      | Some (word, n) \<Rightarrow>
          parse_pairs (AList.update word n word_counts) (List.insert word vocabulary) rest)"
  by (simp only: parse_pairs.simps unpack_pair)

lemma parse_pairs_malformed:
  "\<not> list_all (\<lambda>seg. first_colon_pair seg \<noteq> None) pairs
     \<Longrightarrow> parse_pairs word_counts vocabulary pairs = Inl ValueError"
proof (induction pairs arbitrary: word_counts vocabulary)
  case Nil
  then show ?case by simp
next
  case (Cons seg rest)
  show ?case
  proof (cases "first_colon_pair seg")
    case None
    then show ?thesis by (simp only: parse_pairs_step) simp
  next
    case (Some p)
    obtain word n where p: "p = (word, n)" by (cases p)
    from Cons.prems Some have "\<not> list_all (\<lambda>seg. first_colon_pair seg \<noteq> None) rest" by simp
    from Cons.IH [OF this] Some p show ?thesis
      by (simp only: parse_pairs_step) simp
  qed
qed

lemma parse_pairs_well_formed:
  "list_all (\<lambda>seg. first_colon_pair seg \<noteq> None) pairs
     \<Longrightarrow> \<exists>vocabulary'. parse_pairs word_counts vocabulary pairs
          = Inr (fold (\<lambda>seg word_counts.
                         case first_colon_pair seg of
                           None \<Rightarrow> word_counts
                         | Some (word, n) \<Rightarrow> AList.update word n word_counts)
                   pairs word_counts,
                 vocabulary')"
proof (induction pairs arbitrary: word_counts vocabulary)
  case Nil
  then show ?case by simp
next
  case (Cons seg rest)
  then obtain word n where p: "first_colon_pair seg = Some (word, n)" by auto
  from Cons.prems have "list_all (\<lambda>seg. first_colon_pair seg \<noteq> None) rest" by simp
  from Cons.IH [OF this, of "AList.update word n word_counts" "List.insert word vocabulary"] p
  show ?case
    by (simp only: parse_pairs_step) simp
qed

lemma load_lines_malformed:
  "\<not> list_all well_formed_line lines \<Longrightarrow> load_lines documents vocabulary lines = Inl ValueError"
proof (induction lines arbitrary: documents vocabulary)
  case Nil
  then show ?case by simp
next
  case (Cons line lines)
  show ?case
  proof (cases "py_split (py_strip line)")
    case Nil
    then have "well_formed_line line" by (simp add: well_formed_line_def)
    with Cons.prems have "\<not> list_all well_formed_line lines" by simp
    from Cons.IH [OF this] Nil show ?thesis by simp
  next
    case parts: (Cons label pairs)
    show ?thesis
    proof (cases "well_formed_line line")
      case True
      then have "list_all (\<lambda>seg. first_colon_pair seg \<noteq> None) pairs"
        by (simp add: well_formed_line_def parts)
      from parse_pairs_well_formed [OF this, of "[]" vocabulary] obtain word_counts vocabulary1 where
        pp: "parse_pairs [] vocabulary pairs = Inr (word_counts, vocabulary1)" by blast
      from True Cons.prems have "\<not> list_all well_formed_line lines" by simp
      from Cons.IH [OF this] pp parts show ?thesis by simp
    next
      case False
      then have "\<not> list_all (\<lambda>seg. first_colon_pair seg \<noteq> None) pairs"
        by (simp add: well_formed_line_def parts)
      from parse_pairs_malformed [OF this] parts show ?thesis by simp
    qed
  qed
qed

lemma load_lines_well_formed:
  "list_all well_formed_line lines
     \<Longrightarrow> \<exists>vocabulary'. load_lines documents vocabulary lines
          = Inr (documents @ List.map_filter line_document lines, vocabulary')"
proof (induction lines arbitrary: documents vocabulary)
  case Nil
  then show ?case by (simp add: List.map_filter_simps)
next
  case (Cons line lines)
  from Cons.prems have rest: "list_all well_formed_line lines" and wf: "well_formed_line line"
    by simp_all
  show ?case
  proof (cases "py_split (py_strip line)")
    case Nil
    then have "line_document line = None" by (simp add: line_document_def)
    with Cons.IH [OF rest, of documents vocabulary] Nil show ?thesis
      by (simp add: List.map_filter_simps)
  next
    case parts: (Cons label pairs)
    let ?wc = "fold (\<lambda>seg word_counts.
                       case first_colon_pair seg of
                         None \<Rightarrow> word_counts
                       | Some (word, n) \<Rightarrow> AList.update word n word_counts)
                 pairs []"
    from wf have "list_all (\<lambda>seg. first_colon_pair seg \<noteq> None) pairs"
      by (simp add: well_formed_line_def parts)
    from parse_pairs_well_formed [OF this, of "[]" vocabulary] obtain vocabulary1 where
      pp: "parse_pairs [] vocabulary pairs = Inr (?wc, vocabulary1)" by blast
    have doc: "line_document line = Some (?wc, label)"
      by (simp add: line_document_def parts)
    from Cons.IH [OF rest, of "documents @ [(?wc, label)]" vocabulary1] pp parts doc
    show ?thesis
      by (simp add: List.map_filter_simps)
  qed
qed

lemma load_lines_skips_blank:
  "load_lines documents vocabulary (filter (\<lambda>line. py_split (py_strip line) \<noteq> []) lines)
     = load_lines documents vocabulary lines"
proof (induction lines arbitrary: documents vocabulary)
  case Nil
  show ?case by simp
next
  case (Cons line lines)
  show ?case
  proof (cases "py_split (py_strip line)")
    case Nil
    with Cons show ?thesis by simp
  next
    case parts: (Cons label pairs)
    show ?thesis
    proof (cases "parse_pairs [] vocabulary pairs")
      case (Inl e)
      with parts show ?thesis by simp
    next
      case (Inr r)
      obtain word_counts vocabulary1 where "r = (word_counts, vocabulary1)" by (cases r)
      with Inr parts Cons show ?thesis by simp
    qed
  qed
qed

lemmas loader_eval =
  well_formed_line_def first_colon_pair_def line_document_def List.map_filter_simps
  py_split_def py_strip_def is_space_def py_int_def is_digit_def digit_value_def

text \<open>
  Claim C7 says that the count of a segment parses as a non-negative integer and that
  no document with a negative count is ever produced. The code parses the count with
  \<open>int\<close>, which accepts a sign: the line \<open>pos bad:-5\<close> loads as a document in which
  the count of \<open>bad\<close> is \<open>-5\<close>.
\<close>

theorem negative_count_is_loaded:
  "load_preprocessed_data [''pos bad:-5''] = Inr ([([(''bad'', - 5)], ''pos'')], [''bad''])"
  by (simp add: nb_eval)

text \<open>
  Claim C7, as amended. The code splits a segment at every colon and requires exactly
  two fields; that accepts the same segments, with the same word and count, as splitting
  at the first colon and parsing the rest with \<open>int\<close> (lemma \<open>unpack_pair\<close>), where
  \<open>int\<close> accepts signed integers, negative ones included. If every segment of every
  line is well formed in this sense, the loader returns one document per non-blank line,
  in order. Otherwise the whole invocation fails with \<open>ValueError\<close> and returns
  nothing. Blank lines are skipped: removing them changes nothing.
\<close>

theorem load_preprocessed_data_all_or_nothing:
  "(list_all well_formed_line lines \<longrightarrow>
      (\<exists>vocabulary. load_preprocessed_data lines = Inr (List.map_filter line_document lines, vocabulary)))
   \<and> (\<not> list_all well_formed_line lines \<longrightarrow> load_preprocessed_data lines = Inl ValueError)
   \<and> load_preprocessed_data (filter (\<lambda>line. py_split (py_strip line) \<noteq> []) lines)
       = load_preprocessed_data lines"
proof (intro conjI impI)
  assume "list_all well_formed_line lines"
  from load_lines_well_formed [OF this, of "[]" "[]"]
  show "\<exists>vocabulary. load_preprocessed_data lines = Inr (List.map_filter line_document lines, vocabulary)"
    by (simp add: load_preprocessed_data_def)
next
  assume "\<not> list_all well_formed_line lines"
  then show "load_preprocessed_data lines = Inl ValueError"
    unfolding load_preprocessed_data_def by (rule load_lines_malformed)
next
  show "load_preprocessed_data (filter (\<lambda>line. py_split (py_strip line) \<noteq> []) lines)
       = load_preprocessed_data lines"
    unfolding load_preprocessed_data_def by (rule load_lines_skips_blank)
qed

theorem load_preprocessed_data_all_or_nothing_witness:
  "list_all well_formed_line [''pos good:2 fine:+1'', '' '', ''neg bad:-1 dull:1_0'']
   \<and> (\<exists>vocabulary.
         load_preprocessed_data [''pos good:2 fine:+1'', '' '', ''neg bad:-1 dull:1_0'']
           = Inr ([([(''good'', 2), (''fine'', 1)], ''pos''), ([(''bad'', - 1), (''dull'', 10)], ''neg'')],
                  vocabulary))
   \<and> \<not> list_all well_formed_line [''pos good:2'', ''neg bad:1.5'']
   \<and> load_preprocessed_data [''pos good:2'', ''neg bad:1.5''] = Inl ValueError
   \<and> \<not> list_all well_formed_line [''pos good:2'', ''neg bad'']
   \<and> load_preprocessed_data [''pos good:2'', ''neg bad''] = Inl ValueError
   \<and> \<not> list_all well_formed_line [''pos good:2'', ''neg a:b:3'']
   \<and> load_preprocessed_data [''pos good:2'', ''neg a:b:3''] = Inl ValueError"
proof -
  have wf: "list_all well_formed_line [''pos good:2 fine:+1'', '' '', ''neg bad:-1 dull:1_0'']"
    by (simp add: loader_eval)
  have docs: "List.map_filter line_document [''pos good:2 fine:+1'', '' '', ''neg bad:-1 dull:1_0'']
      = [([(''good'', 2), (''fine'', 1)], ''pos''), ([(''bad'', - 1), (''dull'', 10)], ''neg'')]"
    by (simp add: loader_eval)
  have m1: "\<not> list_all well_formed_line [''pos good:2'', ''neg bad:1.5'']"
    by (simp add: loader_eval)
  have m2: "\<not> list_all well_formed_line [''pos good:2'', ''neg bad'']"
    by (simp add: loader_eval)
  have m3: "\<not> list_all well_formed_line [''pos good:2'', ''neg a:b:3'']"
    by (simp add: loader_eval)
  from load_preprocessed_data_all_or_nothing [of "[''pos good:2 fine:+1'', '' '', ''neg bad:-1 dull:1_0'']"] wf
  have ok: "\<exists>vocabulary.
         load_preprocessed_data [''pos good:2 fine:+1'', '' '', ''neg bad:-1 dull:1_0'']
           = Inr ([([(''good'', 2), (''fine'', 1)], ''pos''), ([(''bad'', - 1), (''dull'', 10)], ''neg'')],
                  vocabulary)"
    by (simp only: docs)
  from load_preprocessed_data_all_or_nothing [of "[''pos good:2'', ''neg bad:1.5'']"] m1
  have e1: "load_preprocessed_data [''pos good:2'', ''neg bad:1.5''] = Inl ValueError" by blast
  from load_preprocessed_data_all_or_nothing [of "[''pos good:2'', ''neg bad'']"] m2
  have e2: "load_preprocessed_data [''pos good:2'', ''neg bad''] = Inl ValueError" by blast
  from load_preprocessed_data_all_or_nothing [of "[''pos good:2'', ''neg a:b:3'']"] m3
  have e3: "load_preprocessed_data [''pos good:2'', ''neg a:b:3''] = Inl ValueError" by blast
  from wf ok m1 e1 m2 e2 m3 e3 show ?thesis by blast
qed

text \<open>
  Claim C10. For every corpus that \<open>load_preprocessed_data\<close> accepts, the vocabulary
  it returns has the same words as the vocabulary that the trainer computes from the
  returned documents, and as the vocabulary of any model that \<open>train_naive_bayes\<close>
  returns for them.
\<close>

theorem loader_vocabulary_is_trainer_vocabulary:
  assumes "load_preprocessed_data lines = Inr (documents, vocabulary)"
  shows "set (collect_vocabulary [] documents) = set vocabulary
       \<and> (\<forall>V logprior loglikelihood.
             train_naive_bayes documents classes = Inr (V, logprior, loglikelihood)
             \<longrightarrow> set V = set vocabulary)"
proof -
  from load_lines_vocabulary [OF assms [unfolded load_preprocessed_data_def]]
  have "set vocabulary = (\<Union>d\<in>set documents. fst ` set (fst d))"
    by auto
  then have "set (collect_vocabulary [] documents) = set vocabulary"
    by (simp add: set_collect_vocabulary)
  then show ?thesis
    by (auto simp: train_stages)
qed

theorem loader_vocabulary_is_trainer_vocabulary_witness:
  "\<exists>documents vocabulary V logprior loglikelihood.
     load_preprocessed_data [''pos great:2 movie:1'', '''', ''neg bad:2 movie:1''] = Inr (documents, vocabulary)
     \<and> train_naive_bayes documents [''pos'', ''neg''] = Inr (V, logprior, loglikelihood)
     \<and> set (collect_vocabulary [] documents) = set vocabulary
     \<and> set V = set vocabulary"
proof -
  have l: "load_preprocessed_data [''pos great:2 movie:1'', '''', ''neg bad:2 movie:1'']
             = Inr (scenario_docs, [''bad'', ''movie'', ''great''])"
    by (simp add: nb_eval scenario_docs_def)
  from scenario_trains obtain V logprior loglikelihood where
    t: "train_naive_bayes scenario_docs [''pos'', ''neg''] = Inr (V, logprior, loglikelihood)"
    by blast
  from loader_vocabulary_is_trainer_vocabulary [OF l, of "[''pos'', ''neg'']"] l t
  show ?thesis by blast
qed

section \<open>What the driver writes\<close>

text \<open>
  The prediction loop appends one line per test document to the file and counts the
  documents and the correct predictions; \<open>format_2f\<close> always prints two decimals.
\<close>

lemma predict_all_result:
  "predict_all fadd fmul V logprior loglikelihood classes (out, correct, total_n) test_docs = Inr (out', correct', total_n')
     \<Longrightarrow> \<exists>predictions.
           map (\<lambda>d. test_naive_bayes fadd fmul (fst d) V logprior loglikelihood classes) test_docs = map Inr predictions
         \<and> out' = out @ concat (map (\<lambda>p. p @ newline) predictions)
         \<and> correct' = correct + count_correct predictions test_docs
         \<and> total_n' = total_n + length test_docs"
proof (induction test_docs arbitrary: out correct total_n)
  case Nil
  then show ?case by (simp add: count_correct_def)
next
  case (Cons d test_docs)
  obtain word_counts true_label where d: "d = (word_counts, true_label)" by (cases d)
  from Cons.prems obtain p where
    p: "test_naive_bayes fadd fmul word_counts V logprior loglikelihood classes = Inr p" and
    rest: "predict_all fadd fmul V logprior loglikelihood classes
             (out @ p @ newline, if p = true_label then correct + 1 else correct, total_n + 1) test_docs
           = Inr (out', correct', total_n')"
    by (auto simp: d split: sum.splits)
  from Cons.IH [OF rest] obtain predictions where
    ps: "map (\<lambda>d. test_naive_bayes fadd fmul (fst d) V logprior loglikelihood classes) test_docs = map Inr predictions" and
    o: "out' = (out @ p @ newline) @ concat (map (\<lambda>p. p @ newline) predictions)" and
    c: "correct' = (if p = true_label then correct + 1 else correct) + count_correct predictions test_docs" and
    t: "total_n' = (total_n + 1) + length test_docs"
    by blast
  have "map (\<lambda>d. test_naive_bayes fadd fmul (fst d) V logprior loglikelihood classes) (d # test_docs)
          = map Inr (p # predictions)"
    using ps p by (simp add: d)
  moreover have "out' = out @ concat (map (\<lambda>p. p @ newline) (p # predictions))"
    using o by simp
  moreover have "correct' = correct + count_correct (p # predictions) (d # test_docs)"
    using c by (simp add: count_correct_def d)
  moreover have "total_n' = total_n + length (d # test_docs)"
    using t by simp
  ultimately show ?case by blast
qed

lemma predict_all_succeeds:
  "\<forall>d\<in>set test_docs. \<exists>p. test_naive_bayes fadd fmul (fst d) V logprior loglikelihood classes = Inr p
     \<Longrightarrow> \<exists>st'. predict_all fadd fmul V logprior loglikelihood classes st test_docs = Inr st'"
proof (induction test_docs arbitrary: st)
  case Nil
  have "predict_all fadd fmul V logprior loglikelihood classes st [] = Inr st" by simp
  then show ?case by (rule exI)
next
  case (Cons d test_docs)
  obtain out correct total_n where st: "st = (out, correct, total_n)" by (cases st)
  obtain word_counts true_label where d: "d = (word_counts, true_label)" by (cases d)
  from Cons.prems obtain p where
    p: "test_naive_bayes fadd fmul word_counts V logprior loglikelihood classes = Inr p"
    by (auto simp: d)
  from Cons.prems have "\<forall>d\<in>set test_docs. \<exists>p. test_naive_bayes fadd fmul (fst d) V logprior loglikelihood classes = Inr p"
    by simp
  from Cons.IH [OF this] p show ?case
    by (simp add: st d)
qed

lemma digit_char_is_digit: "d < 10 \<Longrightarrow> is_digit (digit_char d)"
  unfolding digit_char_def is_digit_def by (rule nth_mem) simp

lemma show_nat_digits: "show_nat n \<noteq> [] \<and> list_all is_digit (show_nat n)"
proof (induction n rule: show_nat.induct)
  case (1 n)
  show ?case
  proof (cases "n < 10")
    case True
    then show ?thesis
      by (subst (1 2) show_nat.simps) (simp add: digit_char_is_digit)
  next
    case False
    with 1 show ?thesis
      by (subst (1 2) show_nat.simps) (simp add: digit_char_is_digit)
  qed
qed

lemma format_2f_shape:
  "\<exists>ip d1 d2. format_2f x = ip @ ''.'' @ [d1, d2]
     \<and> ip \<noteq> [] \<and> list_all is_digit ip \<and> is_digit d1 \<and> is_digit d2"
proof -
  let ?h = "nat (round_half_even (x * 100))"
  have "format_2f x = show_nat (?h div 100) @ ''.'' @ [digit_char (?h mod 100 div 10), digit_char (?h mod 10)]"
    by (simp add: format_2f_def Let_def)
  moreover have "is_digit (digit_char (?h mod 100 div 10))"
    by (rule digit_char_is_digit) (simp add: div_less_iff_less_mult)
  moreover have "is_digit (digit_char (?h mod 10))"
    by (rule digit_char_is_digit) simp
  ultimately show ?thesis
    using show_nat_digits [of "?h div 100"] by blast
qed

lemma format_2f_seventy: "format_2f (real 7 / real 10 * 100) = ''70.00''"
  by (simp add: format_2f_def round_half_even_def digit_char_def)

lemma nb_main_stages:
  "nb_main fadd fmul classes train_lines test_lines = Inr out \<Longrightarrow>
     \<exists>train_docs vocab V logprior loglikelihood test_docs vocab' written correct total_n.
       load_preprocessed_data train_lines = Inr (train_docs, vocab)
     \<and> train_naive_bayes train_docs classes = Inr (V, logprior, loglikelihood)
     \<and> load_preprocessed_data test_lines = Inr (test_docs, vocab')
     \<and> predict_all fadd fmul V logprior loglikelihood classes ([], 0, 0) test_docs = Inr (written, correct, total_n)
     \<and> total_n \<noteq> 0
     \<and> out = written @ newline @ ''Accuracy: '' @ format_2f (real correct / real total_n * 100) @ ''%''"
  unfolding nb_main_def py_truediv_def
  by (auto split: sum.splits prod.splits if_splits)

lemma nb_main_returns:
  assumes l1: "load_preprocessed_data train_lines = Inr (train_docs, vocab)"
    and tr: "train_naive_bayes train_docs classes = Inr (V, logprior, loglikelihood)"
    and l2: "load_preprocessed_data test_lines = Inr (test_docs, vocab')"
    and ne: "test_docs \<noteq> []" and dist: "distinct classes" and cls: "classes \<noteq> []"
    and mul: "\<forall>count x. \<exists>y. fmul count x = Inr y"
  shows "\<exists>out. nb_main fadd fmul classes train_lines test_lines = Inr out"
proof -
  have known: "\<forall>c\<in>set classes. map_of logprior c \<noteq> None"
    using train_result(3) [OF tr] by simp
  have "\<exists>p. test_naive_bayes fadd fmul word_counts V logprior loglikelihood classes = Inr p" for word_counts
  proof -
    from final_scores_succeeds [OF dist known mul] obtain scores where
      fs: "final_scores fadd fmul word_counts V logprior loglikelihood classes = Inr scores"
      by blast
    from final_scores_keys [OF fs dist] cls have "scores \<noteq> []" by auto
    from test_naive_bayes_first_max [OF fs this] show ?thesis by blast
  qed
  then have "\<forall>d\<in>set test_docs. \<exists>p. test_naive_bayes fadd fmul (fst d) V logprior loglikelihood classes = Inr p"
    by blast
  from predict_all_succeeds [OF this, of "([], 0, 0)"] obtain written correct total_n where
    pa: "predict_all fadd fmul V logprior loglikelihood classes ([], 0, 0) test_docs = Inr (written, correct, total_n)"
    by (metis prod_cases3)
  from predict_all_result [OF pa] have "total_n = length test_docs" by auto
  with ne have "total_n \<noteq> 0" by simp
  with l1 tr l2 pa show ?thesis
    by (simp add: nb_main_def py_truediv_def)
qed

lemmas driver_eval =
  nb_main_def newline_def format_2f_def round_half_even_def digit_char_def

lemma seven_of_ten:
  "nb_main exact_add exact_mul [''pos'', ''neg''] [''pos good:1'', ''pos fine:1'', ''neg bad:1'']
     [''pos'', ''neg'', ''pos'', ''pos'', ''neg'', ''pos'', ''pos'', ''neg'', ''pos'', ''pos'']
   = Inr (concat (map (\<lambda>p. p @ newline)
            [''pos'', ''pos'', ''pos'', ''pos'', ''pos'', ''pos'', ''pos'', ''pos'', ''pos'', ''pos''])
          @ newline @ ''Accuracy: 70.00%'')"
  by (simp add: nb_eval driver_eval)

text \<open>
  Claim C9 says that the predicted labels, one per line, are directly followed by the
  line \<open>Accuracy: XX.XX%\<close>. The driver writes \<open>"\nAccuracy: ...%"\<close> after the last
  prediction's own newline, so an empty line separates the predictions from the summary,
  and the summary line is not terminated by a newline: for one test document the file
  is \<open>pos\<close>, an empty line, \<open>Accuracy: 100.00%\<close>, in either iteration order of the
  class set.
\<close>

theorem blank_line_before_accuracy:
  "nb_main exact_add exact_mul [''pos'', ''neg''] [''pos good:1'', ''neg bad:1''] [''pos good:2'']
     = Inr (''pos'' @ newline @ newline @ ''Accuracy: 100.00%'')
   \<and> nb_main exact_add exact_mul [''neg'', ''pos''] [''pos good:1'', ''neg bad:1''] [''pos good:2'']
     = Inr (''pos'' @ newline @ newline @ ''Accuracy: 100.00%'')
   \<and> ''pos'' @ newline @ newline @ ''Accuracy: 100.00%''
       \<noteq> predictions_then_summary [''pos''] ''Accuracy: 100.00%''
   \<and> ''pos'' @ newline @ newline @ ''Accuracy: 100.00%''
       \<noteq> predictions_then_summary [''pos''] (''Accuracy: 100.00%'' @ newline)"
  by (simp add: nb_eval driver_eval predictions_then_summary_def)

text \<open>
  Claim C9, as amended. Whenever the driver completes, the test corpus had at least one
  document, and the predictions file consists of the predicted label of each test
  document, in the order the documents were read, each on a line of its own; then one
  empty line; then \<open>Accuracy: \<close>, the percentage of correct predictions with at
  least one digit before the point and exactly two after it, and \<open>%\<close>, with no newline
  at the end. For 10 test documents with 7 correct predictions that last line is
  \<open>Accuracy: 70.00%\<close>. (The percentage is rounded from its exact value; lemma
  \<open>nb_main_returns\<close> shows that the driver does complete when both corpora load, training
  returns, the test corpus is not empty and no product overflows.)
\<close>

theorem driver_output_layout:
  assumes "nb_main fadd fmul classes train_lines test_lines = Inr out"
  shows "\<exists>train_docs vocab V logprior loglikelihood test_docs vocab' predictions.
       load_preprocessed_data train_lines = Inr (train_docs, vocab)
     \<and> train_naive_bayes train_docs classes = Inr (V, logprior, loglikelihood)
     \<and> load_preprocessed_data test_lines = Inr (test_docs, vocab')
     \<and> test_docs \<noteq> []
     \<and> map (\<lambda>d. test_naive_bayes fadd fmul (fst d) V logprior loglikelihood classes) test_docs = map Inr predictions
     \<and> out = concat (map (\<lambda>p. p @ newline) predictions) @ newline @ ''Accuracy: ''
               @ format_2f (real (count_correct predictions test_docs) / real (length test_docs) * 100)
               @ ''%''
     \<and> (\<exists>ip d1 d2.
           format_2f (real (count_correct predictions test_docs) / real (length test_docs) * 100)
             = ip @ ''.'' @ [d1, d2]
         \<and> ip \<noteq> [] \<and> list_all is_digit ip \<and> is_digit d1 \<and> is_digit d2)
     \<and> (length test_docs = 10 \<and> count_correct predictions test_docs = 7 \<longrightarrow>
           out = concat (map (\<lambda>p. p @ newline) predictions) @ newline @ ''Accuracy: 70.00%'')"
proof -
  from nb_main_stages [OF assms] obtain train_docs vocab V logprior loglikelihood test_docs vocab'
      written correct total_n where
    l1: "load_preprocessed_data train_lines = Inr (train_docs, vocab)" and
    tr: "train_naive_bayes train_docs classes = Inr (V, logprior, loglikelihood)" and
    l2: "load_preprocessed_data test_lines = Inr (test_docs, vocab')" and
    pa: "predict_all fadd fmul V logprior loglikelihood classes ([], 0, 0) test_docs = Inr (written, correct, total_n)" and
    nz: "total_n \<noteq> 0" and
    out: "out = written @ newline @ ''Accuracy: '' @ format_2f (real correct / real total_n * 100) @ ''%''"
    by blast
  from predict_all_result [OF pa] obtain predictions where
    ps: "map (\<lambda>d. test_naive_bayes fadd fmul (fst d) V logprior loglikelihood classes) test_docs = map Inr predictions" and
    w: "written = concat (map (\<lambda>p. p @ newline) predictions)" and
    c: "correct = count_correct predictions test_docs" and
    t: "total_n = length test_docs"
    by auto
  let ?acc = "format_2f (real (count_correct predictions test_docs) / real (length test_docs) * 100)"
  have ne: "test_docs \<noteq> []" using nz t by auto
  have o: "out = concat (map (\<lambda>p. p @ newline) predictions) @ newline @ ''Accuracy: '' @ ?acc @ ''%''"
    using out w c t by simp
  have shape: "\<exists>ip d1 d2. ?acc = ip @ ''.'' @ [d1, d2]
         \<and> ip \<noteq> [] \<and> list_all is_digit ip \<and> is_digit d1 \<and> is_digit d2"
    by (rule format_2f_shape)
  have seventy: "length test_docs = 10 \<and> count_correct predictions test_docs = 7 \<longrightarrow>
           out = concat (map (\<lambda>p. p @ newline) predictions) @ newline @ ''Accuracy: 70.00%''"
  proof
    assume "length test_docs = 10 \<and> count_correct predictions test_docs = 7"
    then have "?acc = ''70.00''"
      using format_2f_seventy by simp
    with o show "out = concat (map (\<lambda>p. p @ newline) predictions) @ newline @ ''Accuracy: 70.00%''"
      by simp
  qed
  from l1 tr l2 ne ps o shape seventy show ?thesis by blast
qed

theorem driver_output_layout_witness:
  "nb_main exact_add exact_mul [''pos'', ''neg''] [''pos good:1'', ''pos fine:1'', ''neg bad:1'']
     [''pos'', ''neg'', ''pos'', ''pos'', ''neg'', ''pos'', ''pos'', ''neg'', ''pos'', ''pos'']
   = Inr (concat (map (\<lambda>p. p @ newline)
            [''pos'', ''pos'', ''pos'', ''pos'', ''pos'', ''pos'', ''pos'', ''pos'', ''pos'', ''pos''])
          @ newline @ ''Accuracy: 70.00%'')
   \<and> (\<exists>test_docs vocab' predictions.
         load_preprocessed_data
           [''pos'', ''neg'', ''pos'', ''pos'', ''neg'', ''pos'', ''pos'', ''neg'', ''pos'', ''pos'']
           = Inr (test_docs, vocab')
       \<and> test_docs \<noteq> []
       \<and> concat (map (\<lambda>p. p @ newline)
            [''pos'', ''pos'', ''pos'', ''pos'', ''pos'', ''pos'', ''pos'', ''pos'', ''pos'', ''pos''])
          @ newline @ ''Accuracy: 70.00%''
         = concat (map (\<lambda>p. p @ newline) predictions) @ newline @ ''Accuracy: ''
             @ format_2f (real (count_correct predictions test_docs) / real (length test_docs) * 100)
             @ ''%'')"
proof -
  from driver_output_layout [OF seven_of_ten]
  have "\<exists>test_docs vocab' predictions.
         load_preprocessed_data
           [''pos'', ''neg'', ''pos'', ''pos'', ''neg'', ''pos'', ''pos'', ''neg'', ''pos'', ''pos'']
           = Inr (test_docs, vocab')
       \<and> test_docs \<noteq> []
       \<and> concat (map (\<lambda>p. p @ newline)
            [''pos'', ''pos'', ''pos'', ''pos'', ''pos'', ''pos'', ''pos'', ''pos'', ''pos'', ''pos''])
          @ newline @ ''Accuracy: 70.00%''
         = concat (map (\<lambda>p. p @ newline) predictions) @ newline @ ''Accuracy: ''
             @ format_2f (real (count_correct predictions test_docs) / real (length test_docs) * 100)
             @ ''%''"
    by blast
  with seven_of_ten show ?thesis by (rule conjI)
qed

end
